theory Spec2Isabelle
  imports Main "HOL-Library.AList" "HOL-Library.Word"
begin

section \<open>Data model\<close>

text \<open>
  Peer identifiers (\<^verbatim>\<open>peer.ID\<close>) are strings, a payload is a byte slice, and a point in
  time is the number of nanoseconds since the epoch (what \<^verbatim>\<open>Metric.Expire\<close> holds and
  what the clock is compared with).
\<close>

type_synonym peer_id = string
type_synonym bytes = "8 word list"
type_synonym time = int

text \<open>
  The errors of the two packages: \<^verbatim>\<open>ErrAlertChannelFull\<close> of
  \<^verbatim>\<open>metrics_checker.go\<close>, and the errors handed back by the collaborators (codec,
  transport, remote call), which the code only passes on.
\<close>

datatype error = ErrAlertChannelFull | ErrExternal string

text \<open>
  Modelled from the spec: the declaration of \<^verbatim>\<open>api.Metric\<close> with its methods
  \<^verbatim>\<open>Expired\<close> and \<^verbatim>\<open>Discard\<close> is not among the sources. The fields are the
  ones the sources read and write (\<^verbatim>\<open>Name\<close>, \<^verbatim>\<open>Peer\<close>, \<^verbatim>\<open>Value\<close>,
  \<^verbatim>\<open>Expire\<close>, \<^verbatim>\<open>Valid\<close>; the spec calls the first Kind and the fourth
  ExpiresAt). The spec: "Expired() is true when the current time is at or past this
  value", and Discard() is true for a metric that is "invalid: missing kind or peer".
\<close>

record Metric =
  Name :: string
  Peer :: peer_id
  Value :: string
  Expire :: time
  Valid :: bool

definition Expired :: "Metric \<Rightarrow> time \<Rightarrow> bool" where
  "Expired m now = (Expire m \<le> now)"

definition Discard :: "Metric \<Rightarrow> bool" where
  "Discard m = (Name m = [] \<or> Peer m = [])"

text \<open>\<^verbatim>\<open>api.Alert{Peer, MetricName}\<close>, as \<^verbatim>\<open>MetricsChecker.alert\<close> builds it.\<close>

datatype Alert = Alert (Alert_Peer: peer_id) (Alert_MetricName: string)

section \<open>The metric store\<close>

text \<open>
  Modelled from the spec: \<^verbatim>\<open>util.MetricStore\<close> (\<^verbatim>\<open>NewMetricStore\<close>,
  \<^verbatim>\<open>Add\<close>, \<^verbatim>\<open>Latest\<close>, \<^verbatim>\<open>PeerMetrics\<close>) is not among the sources. The spec:
  the state is "a mapping from peer to (mapping from metric kind to bounded ordered
  history of Metric, most-recent-last)", "insertion beyond the cap evicts the oldest
  entry (FIFO)"; Add "inserts metric into the history for (metric.Peer, metric.Kind),
  evicting the oldest entry if the per-key window is full" and "does not re-validate";
  Latest(kind) "returns, for every peer that has reported kind at least once, the most
  recently added metric of that kind provided it has not expired"; PeerMetrics(peer)
  "returns the most recent metric of each kind reported by peer, regardless of expiry".

  Both mappings are association lists in the order of first insertion; the order in
  which the store hands out metrics is unspecified in the spec, and no theorem below
  depends on it except through the order of the alerts of one sweep. The window size
  is a parameter of the store.
\<close>

record MetricStore =
  WindowCap :: nat
  byPeer :: "(peer_id \<times> (string \<times> Metric list) list) list"

definition NewMetricStore :: "nat \<Rightarrow> MetricStore" where
  "NewMetricStore w = \<lparr>WindowCap = w, byPeer = []\<rparr>"

definition window_add :: "nat \<Rightarrow> Metric list \<Rightarrow> Metric \<Rightarrow> Metric list" where
  "window_add w h m = (if length h < w then h @ [m] else tl h @ [m])"

definition kinds_of :: "MetricStore \<Rightarrow> peer_id \<Rightarrow> (string \<times> Metric list) list" where
  "kinds_of mtrs p = (case map_of (byPeer mtrs) p of None \<Rightarrow> [] | Some ks \<Rightarrow> ks)"

definition history :: "MetricStore \<Rightarrow> peer_id \<Rightarrow> string \<Rightarrow> Metric list" where
  "history mtrs p k = (case map_of (kinds_of mtrs p) k of None \<Rightarrow> [] | Some h \<Rightarrow> h)"

definition Add :: "MetricStore \<Rightarrow> Metric \<Rightarrow> MetricStore" where
  "Add mtrs m =
     mtrs\<lparr>byPeer :=
       AList.update (Peer m)
         (AList.update (Name m)
            (window_add (WindowCap mtrs) (history mtrs (Peer m) (Name m)) m)
            (kinds_of mtrs (Peer m)))
         (byPeer mtrs)\<rparr>"

definition newest :: "Metric list \<Rightarrow> Metric option" where
  "newest h = (if h = [] then None else Some (last h))"

definition PeerMetrics :: "MetricStore \<Rightarrow> peer_id \<Rightarrow> Metric list" where
  "PeerMetrics mtrs p = List.map_filter (\<lambda>kh. newest (snd kh)) (kinds_of mtrs p)"

definition unexpired :: "time \<Rightarrow> Metric \<Rightarrow> Metric option" where
  "unexpired now m = (if Expired m now then None else Some m)"

definition Latest :: "MetricStore \<Rightarrow> string \<Rightarrow> time \<Rightarrow> Metric list" where
  "Latest mtrs name now =
     List.map_filter
       (\<lambda>pk. case map_of (snd pk) name of
                None \<Rightarrow> None
              | Some h \<Rightarrow> (case newest h of None \<Rightarrow> None | Some m \<Rightarrow> unexpired now m))
       (byPeer mtrs)"

text \<open>The latest stored metric of a peer and a kind, if the peer ever reported the kind.\<close>

definition latest_metric :: "MetricStore \<Rightarrow> peer_id \<Rightarrow> string \<Rightarrow> Metric option" where
  "latest_metric mtrs p k = newest (history mtrs p k)"

text \<open>All the metrics the store holds.\<close>

definition stored :: "MetricStore \<Rightarrow> Metric set" where
  "stored mtrs = (\<Union>pk \<in> set (byPeer mtrs). \<Union>kh \<in> set (snd pk). set (snd kh))"

text \<open>
  What \<^verbatim>\<open>Add\<close> maintains from the empty store on: no key twice, and every history
  filed under the peer and the kind of its metrics.
\<close>

definition kinds_ok :: "peer_id \<Rightarrow> (string \<times> Metric list) list \<Rightarrow> bool" where
  "kinds_ok p ks =
     (distinct (map fst ks) \<and> (\<forall>kh \<in> set ks. \<forall>m \<in> set (snd kh). Peer m = p \<and> Name m = fst kh))"

definition store_ok :: "MetricStore \<Rightarrow> bool" where
  "store_ok mtrs =
     (distinct (map fst (byPeer mtrs)) \<and> (\<forall>pk \<in> set (byPeer mtrs). kinds_ok (fst pk) (snd pk)))"

section \<open>The metrics checker\<close>

text \<open>
  \<^verbatim>\<open>alertCh\<close> is a buffered channel of alerts, made with capacity
  \<^verbatim>\<open>AlertChannelCap\<close> and never closed (the code hands it out receive-only). Its state
  is its capacity and the alerts sent and not yet received, oldest first. A consumer
  that waits on the channel takes an alert as soon as it is sent: that is a send
  followed by a receive.
\<close>

definition AlertChannelCap :: nat where
  "AlertChannelCap = 256"

record AlertChan =
  chan_cap :: nat
  chan_buf :: "Alert list"

record MetricsChecker =
  alertCh :: AlertChan
  metrics :: MetricStore

definition NewMetricsChecker :: "MetricStore \<Rightarrow> MetricsChecker" where
  "NewMetricsChecker mtrs =
     \<lparr>alertCh = \<lparr>chan_cap = AlertChannelCap, chan_buf = []\<rparr>, metrics = mtrs\<rparr>"

text \<open>
  \<^verbatim>\<open>alert\<close>: a \<^verbatim>\<open>select\<close> with a send and a \<^verbatim>\<open>default\<close>. The send is taken when
  the buffer has room, the default (the error) otherwise.
\<close>

definition alert :: "MetricsChecker \<Rightarrow> peer_id \<Rightarrow> string \<Rightarrow> error option \<times> MetricsChecker" where
  "alert mc pid metricName =
     (let alrt = Alert pid metricName in
      if length (chan_buf (alertCh mc)) < chan_cap (alertCh mc)
      then (None, mc\<lparr>alertCh := (alertCh mc)\<lparr>chan_buf := chan_buf (alertCh mc) @ [alrt]\<rparr>\<rparr>)
      else (Some ErrAlertChannelFull, mc))"

text \<open>
  \<^verbatim>\<open>CheckMetrics\<close>: the inner loop over the metrics of one peer, then the loop over the
  peers. Both return at the first error of \<^verbatim>\<open>alert\<close>. A sweep is taken at one
  instant: \<open>now\<close> is what the clock shows to every \<^verbatim>\<open>Expired()\<close> of the sweep.
\<close>

fun check_peer :: "time \<Rightarrow> Metric list \<Rightarrow> MetricsChecker \<Rightarrow> error option \<times> MetricsChecker" where
  "check_peer now [] mc = (None, mc)"
| "check_peer now (metric # rest) mc =
     (if Valid metric \<and> Expired metric now
      then (case alert mc (Peer metric) (Name metric) of
              (Some err, mc') \<Rightarrow> (Some err, mc')
            | (None, mc') \<Rightarrow> check_peer now rest mc')
      else check_peer now rest mc)"

fun CheckMetrics :: "time \<Rightarrow> MetricsChecker \<Rightarrow> peer_id list \<Rightarrow> error option \<times> MetricsChecker" where
  "CheckMetrics now mc [] = (None, mc)"
| "CheckMetrics now mc (p # peers) =
     (case check_peer now (PeerMetrics (metrics mc) p) mc of
        (Some err, mc') \<Rightarrow> (Some err, mc')
      | (None, mc') \<Rightarrow> CheckMetrics now mc' peers)"

definition Alerts :: "MetricsChecker \<Rightarrow> Alert list" where
  "Alerts mc = chan_buf (alertCh mc)"

text \<open>
  \<^verbatim>\<open>Watch\<close>: each turn of the loop is a \<^verbatim>\<open>select\<close> that takes either a tick of the
  ticker or the closing of \<^verbatim>\<open>ctx.Done()\<close>. The event names the case taken; a tick
  carries what \<^verbatim>\<open>peersF()\<close> returns on that tick (the peers and the error) and the
  clock. \<^verbatim>\<open>Watch_select\<close> is one turn: \<open>True\<close> when the loop has returned.
  \<^verbatim>\<open>Watch\<close> runs the loop over the events taken so far; on the empty list the loop is
  blocked in its \<^verbatim>\<open>select\<close>. The model is of the loop: the ticker exists (the
  interval handed to \<^verbatim>\<open>time.NewTicker\<close> is positive), and the calls of a tick return.
\<close>

datatype watch_event = Tick "peer_id list \<times> error option" time | Done

fun Watch_select :: "watch_event \<Rightarrow> MetricsChecker \<Rightarrow> bool \<times> MetricsChecker" where
  "Watch_select (Tick (peers, err) now) mc =
     (case err of
        Some e \<Rightarrow> (False, mc)
      | None \<Rightarrow> (False, snd (CheckMetrics now mc peers)))"
| "Watch_select Done mc = (True, mc)"









section \<open>The monitor\<close>

text \<open>
  The collaborators the monitor calls and the sources do not hold: the msgpack codec
  and the publish side of the transport. Each is a parameter: what the encoder and the
  decoder return for an input, and the error \<^verbatim>\<open>pubsub.Publish\<close> returns for a topic and
  a payload. The log calls change nothing of the state modelled and are left out.
\<close>

record Collab =
  Encode :: "Metric \<Rightarrow> error + bytes"
  Decode :: "bytes \<Rightarrow> error + Metric"
  Publish :: "string \<Rightarrow> bytes \<Rightarrow> error option"

definition PubsubTopic :: string where
  "PubsubTopic = ''pubsubmon''"

text \<open>
  Modelled from the spec: \<^verbatim>\<open>util.PeersetFilter\<close> is not among the sources. The spec:
  \<^verbatim>\<open>LatestMetrics\<close> "filters the result to only peers present in the current peer
  set".
\<close>

definition PeersetFilter :: "Metric list \<Rightarrow> peer_id list \<Rightarrow> Metric list" where
  "PeersetFilter ms peerset = filter (\<lambda>m. Peer m \<in> set peerset) ms"

text \<open>
  A call that returns, panics, or blocks for ever (a send on a full channel with no
  receiver left, a wait that is never released).
\<close>

datatype 'a outcome = Returned 'a | Panicked string | Blocked

text \<open>
  \<^verbatim>\<open>rpcReady\<close> is \<^verbatim>\<open>make(chan struct{}, 1)\<close>: the number of values buffered (at most
  one), the number of senders blocked on the full buffer, and whether the channel was
  closed. A send on a closed channel panics, and so does the close of a closed channel;
  a receive takes a buffered value (a blocked sender then moves its value in), returns
  at once on a closed and empty channel, and blocks otherwise.
\<close>

record ReadyChan =
  ready_pending :: nat
  ready_blocked :: nat
  ready_closed :: bool

definition ready_send :: "ReadyChan \<Rightarrow> unit outcome \<times> ReadyChan" where
  "ready_send ch =
     (if ready_closed ch then (Panicked ''send on closed channel'', ch)
      else if ready_pending ch < 1 then (Returned (), ch\<lparr>ready_pending := ready_pending ch + 1\<rparr>)
      else (Blocked, ch\<lparr>ready_blocked := ready_blocked ch + 1\<rparr>))"

definition ready_recv :: "ReadyChan \<Rightarrow> ReadyChan option" where
  "ready_recv ch =
     (if 0 < ready_pending ch
      then (if 0 < ready_blocked ch then Some (ch\<lparr>ready_blocked := ready_blocked ch - 1\<rparr>)
            else Some (ch\<lparr>ready_pending := ready_pending ch - 1\<rparr>))
      else if ready_closed ch then Some ch
      else None)"

definition ready_close :: "ReadyChan \<Rightarrow> ReadyChan option" where
  "ready_close ch = (if ready_closed ch then None else Some (ch\<lparr>ready_closed := True\<rparr>))"

text \<open>
  The \<^verbatim>\<open>Monitor\<close> struct. \<^verbatim>\<open>ctx\<close> and \<^verbatim>\<open>cancel\<close> are the flag \<open>cancelled\<close>
  (\<^verbatim>\<open>ctx.Done()\<close> is closed once \<^verbatim>\<open>cancel()\<close> was called); \<^verbatim>\<open>pubsub\<close> is the list
  of the payloads handed to \<^verbatim>\<open>Publish\<close> with their topic; \<^verbatim>\<open>metrics\<close> and
  \<^verbatim>\<open>checker.metrics\<close> point to one store, kept once, inside the checker; \<^verbatim>\<open>wg\<close> is
  the counter of the wait group. \<open>teardown\<close> is not a field of the struct: it records
  the teardown calls \<^verbatim>\<open>Shutdown\<close> has made, in order, so that a theorem can say that a
  call was not made.
\<close>

type_synonym rpc_client = nat

datatype teardown_call = CloseRpcReady | CancelCtx | WaitGroupWait

record Monitor =
  cancelled :: bool
  rpcClient :: "rpc_client option"
  rpcReady :: ReadyChan
  pubsub :: "(string \<times> bytes) list"
  checker :: MetricsChecker
  shutdownLock :: bool
  shutdown :: bool
  wg :: nat
  teardown :: "teardown_call list"

definition mon_metrics :: "Monitor \<Rightarrow> MetricStore" where
  "mon_metrics mon = metrics (checker mon)"

text \<open>\<^verbatim>\<open>SetClient\<close>: the assignment, then the send.\<close>

definition SetClient :: "Monitor \<Rightarrow> rpc_client \<Rightarrow> unit outcome \<times> Monitor" where
  "SetClient mon c =
     (let mon1 = mon\<lparr>rpcClient := Some c\<rparr> in
      case ready_send (rpcReady mon1) of (r, ch) \<Rightarrow> (r, mon1\<lparr>rpcReady := ch\<rparr>))"

text \<open>
  \<^verbatim>\<open>Shutdown\<close>: under the lock, return at once when the flag is set; otherwise close
  \<^verbatim>\<open>rpcReady\<close>, cancel the context, wait for the wait group and set the flag. The
  deferred unlock runs on every return and on a panic; a wait on a counter that is not
  zero never returns (nothing in the sources calls \<^verbatim>\<open>wg.Done\<close>), and the lock stays
  held.
\<close>

definition Shutdown :: "Monitor \<Rightarrow> error option outcome \<times> Monitor" where
  "Shutdown mon =
     (if shutdownLock mon then (Blocked, mon)
      else if shutdown mon then (Returned None, mon)
      else
        (case ready_close (rpcReady mon) of
           None \<Rightarrow> (Panicked ''close of closed channel'', mon)
         | Some ch \<Rightarrow>
             (let mon1 = mon\<lparr>rpcReady := ch, teardown := teardown mon @ [CloseRpcReady]\<rparr>;
                  mon2 = mon1\<lparr>cancelled := True, teardown := teardown mon1 @ [CancelCtx]\<rparr>;
                  mon3 = mon2\<lparr>teardown := teardown mon2 @ [WaitGroupWait]\<rparr>
              in if wg mon3 = 0 then (Returned None, mon3\<lparr>shutdown := True\<rparr>)
                 else (Blocked, mon3\<lparr>shutdownLock := True\<rparr>))))"

definition LogMetric :: "Monitor \<Rightarrow> Metric \<Rightarrow> error option \<times> Monitor" where
  "LogMetric mon m =
     (None, mon\<lparr>checker := (checker mon)\<lparr>metrics := Add (metrics (checker mon)) m\<rparr>\<rparr>)"

definition PublishMetric :: "Collab \<Rightarrow> Monitor \<Rightarrow> Metric \<Rightarrow> error option \<times> Monitor" where
  "PublishMetric env mon m =
     (if Discard m then (None, mon)
      else
        (case Encode env m of
           Inl err \<Rightarrow> (Some err, mon)
         | Inr b \<Rightarrow>
             (let mon1 = mon\<lparr>pubsub := pubsub mon @ [(PubsubTopic, b)]\<rparr> in
              case Publish env PubsubTopic b of
                Some err \<Rightarrow> (Some err, mon1)
              | None \<Rightarrow> (None, mon1))))"

text \<open>
  \<^verbatim>\<open>getPeers\<close>: \<open>call\<close> is what the remote call \<^verbatim>\<open>ConsensusPeers\<close> leaves in
  \<^verbatim>\<open>peers\<close> and returns as its error; \<^verbatim>\<open>getPeers\<close> logs the error and returns both.
  What the remote call does is the library's, also on a client that was never set: the
  model takes its outcome as given.
\<close>

definition getPeers :: "Monitor \<Rightarrow> peer_id list \<times> error option \<Rightarrow> peer_id list \<times> error option" where
  "getPeers mon call = (case call of (peers, err) \<Rightarrow> (peers, err))"

definition LatestMetrics ::
  "Monitor \<Rightarrow> peer_id list \<times> error option \<Rightarrow> time \<Rightarrow> string \<Rightarrow> Metric list" where
  "LatestMetrics mon call now name =
     (let latest = Latest (mon_metrics mon) name now in
      case getPeers mon call of
        (peers, Some err) \<Rightarrow> []
      | (peers, None) \<Rightarrow> PeersetFilter latest peers)"

definition Monitor_Alerts :: "Monitor \<Rightarrow> Alert list" where
  "Monitor_Alerts mon = Alerts (checker mon)"

section \<open>The goroutines\<close>

text \<open>
  \<^verbatim>\<open>New\<close> starts the goroutine \<^verbatim>\<open>run\<close>; \<^verbatim>\<open>run\<close> starts \<^verbatim>\<open>logFromPubsub\<close> and
  \<^verbatim>\<open>checker.Watch\<close>. The system is the monitor with the place each goroutine has
  reached. A goroutine moves by one step at a time, between the points where it waits
  or where another goroutine can act on the state it shares:

  \<^item> \<^verbatim>\<open>run\<close> waits in its \<^verbatim>\<open>select\<close>, then returns;
  \<^item> \<^verbatim>\<open>logFromPubsub\<close> is at the top of its loop, inside \<^verbatim>\<open>subscription.Next\<close>, or
    holds the message \<^verbatim>\<open>Next\<close> returned and has yet to decode and log it;
  \<^item> \<^verbatim>\<open>Watch\<close> waits in its \<^verbatim>\<open>select\<close>.

  \<open>crashed\<close> is set when a goroutine panics; nothing moves after that.
\<close>

datatype run_pc = RunSelect | RunReturned

datatype recv_pc = RecvNotStarted | RecvLoop | RecvNext | RecvGot bytes | RecvReturned

datatype watch_pc = WatchNotStarted | WatchLoop | WatchReturned

record System =
  mon :: Monitor
  run_task :: run_pc
  recv_task :: recv_pc
  watch_task :: watch_pc
  crashed :: bool

text \<open>
  \<^verbatim>\<open>New\<close>, with the window size of the store and the errors of \<^verbatim>\<open>cfg.Validate\<close>,
  \<^verbatim>\<open>floodsub.NewFloodSub\<close> and \<^verbatim>\<open>pubsub.Subscribe\<close> as parameters.
\<close>

definition New :: "nat \<Rightarrow> error option \<Rightarrow> error option \<Rightarrow> error option \<Rightarrow> error + System" where
  "New w validate floodsub subscribe =
     (case validate of
        Some err \<Rightarrow> Inl err
      | None \<Rightarrow>
          (let mtrs = NewMetricStore w; chk = NewMetricsChecker mtrs in
           case floodsub of
             Some err \<Rightarrow> Inl err
           | None \<Rightarrow>
               (case subscribe of
                  Some err \<Rightarrow> Inl err
                | None \<Rightarrow>
                    Inr \<lparr>mon = \<lparr>cancelled = False, rpcClient = None,
                                rpcReady = \<lparr>ready_pending = 0, ready_blocked = 0, ready_closed = False\<rparr>,
                                pubsub = [], checker = chk, shutdownLock = False,
                                shutdown = False, wg = 0, teardown = []\<rparr>,
                         run_task = RunSelect, recv_task = RecvNotStarted,
                         watch_task = WatchNotStarted, crashed = False\<rparr>)))"

text \<open>
  \<^verbatim>\<open>run\<close>: the case of the \<^verbatim>\<open>select\<close> that is taken. The receive from
  \<^verbatim>\<open>rpcReady\<close> can be taken when a value is buffered or the channel is closed, and
  starts the two loops; the other case can be taken once the context is cancelled.
\<close>

datatype run_case = FromRpcReady | FromCtxDone

fun run :: "run_case \<Rightarrow> System \<Rightarrow> System option" where
  "run FromRpcReady s =
     (if run_task s = RunSelect
      then (case ready_recv (rpcReady (mon s)) of
              None \<Rightarrow> None
            | Some ch \<Rightarrow>
                Some (s\<lparr>mon := (mon s)\<lparr>rpcReady := ch\<rparr>, run_task := RunReturned,
                        recv_task := RecvLoop, watch_task := WatchLoop\<rparr>))
      else None)"
| "run FromCtxDone s =
     (if run_task s = RunSelect \<and> cancelled (mon s) then Some (s\<lparr>run_task := RunReturned\<rparr>)
      else None)"

text \<open>
  \<^verbatim>\<open>logFromPubsub\<close>, step by step. At the top of the loop the \<^verbatim>\<open>select\<close> returns
  when the context is cancelled and calls \<^verbatim>\<open>Next\<close> otherwise. \<^verbatim>\<open>Next\<close> returns an
  error (back to the top) or a message. The message is decoded; a decoding error leads
  back to the top, a decoded metric goes to \<^verbatim>\<open>LogMetric\<close>.
\<close>

datatype recv_step = AtSelect | NextReturns "error + bytes" | Handle

fun logFromPubsub :: "Collab \<Rightarrow> recv_step \<Rightarrow> System \<Rightarrow> System option" where
  "logFromPubsub env AtSelect s =
     (if recv_task s = RecvLoop
      then Some (s\<lparr>recv_task := (if cancelled (mon s) then RecvReturned else RecvNext)\<rparr>)
      else None)"
| "logFromPubsub env (NextReturns r) s =
     (if recv_task s = RecvNext
      then (case r of
              Inl err \<Rightarrow> Some (s\<lparr>recv_task := RecvLoop\<rparr>)
            | Inr data \<Rightarrow> Some (s\<lparr>recv_task := RecvGot data\<rparr>))
      else None)"
| "logFromPubsub env Handle s =
     (case recv_task s of
        RecvGot data \<Rightarrow>
          (case Decode env data of
             Inl err \<Rightarrow> Some (s\<lparr>recv_task := RecvLoop\<rparr>)
           | Inr metric \<Rightarrow> Some (s\<lparr>mon := snd (LogMetric (mon s) metric), recv_task := RecvLoop\<rparr>))
      | _ \<Rightarrow> None)"

text \<open>
  The \<^verbatim>\<open>Watch\<close> goroutine of the monitor: one turn of its loop, with
  \<^verbatim>\<open>mon.getPeers\<close> as \<^verbatim>\<open>peersF\<close>. The case \<^verbatim>\<open>ctx.Done()\<close> can be taken once the
  context is cancelled; a tick can be taken whenever the ticker has fired, cancelled or
  not (a \<^verbatim>\<open>select\<close> with two ready cases takes either).
\<close>

fun watch_enabled :: "watch_event \<Rightarrow> Monitor \<Rightarrow> bool" where
  "watch_enabled Done m = cancelled m"
| "watch_enabled (Tick call now) m = True"

fun watch_call :: "Monitor \<Rightarrow> watch_event \<Rightarrow> watch_event" where
  "watch_call m Done = Done"
| "watch_call m (Tick call now) = Tick (getPeers m call) now"

definition watch_turn :: "watch_event \<Rightarrow> System \<Rightarrow> System option" where
  "watch_turn ev s =
     (if watch_task s = WatchLoop \<and> watch_enabled ev (mon s)
      then (case Watch_select (watch_call (mon s) ev) (checker (mon s)) of
              (returned, chk) \<Rightarrow>
                Some (s\<lparr>mon := (mon s)\<lparr>checker := chk\<rparr>,
                        watch_task := (if returned then WatchReturned else WatchLoop)\<rparr>))
      else None)"

text \<open>
  What can happen to the system: a call of the owner (\<^verbatim>\<open>SetClient\<close>, \<^verbatim>\<open>Shutdown\<close>,
  \<^verbatim>\<open>LogMetric\<close>, \<^verbatim>\<open>PublishMetric\<close>), the consumer receiving the oldest alert from
  \<^verbatim>\<open>Alerts()\<close>, or a step of a goroutine. A call is one step: \<^verbatim>\<open>Shutdown\<close> runs under
  its lock, and what it writes (the channel, the context, the flag) no goroutine writes;
  the other calls touch the shared state once. A tick of the watch loop is one step
  too. \<^verbatim>\<open>step\<close> is \<open>None\<close> when the step cannot be taken. Closing \<^verbatim>\<open>rpcReady\<close> makes
  the senders blocked on it panic.
\<close>

datatype action =
    CallSetClient rpc_client
  | CallShutdown
  | CallLogMetric Metric
  | CallPublishMetric Metric
  | ReceiveAlert
  | GoRun run_case
  | GoRecv recv_step
  | GoWatch watch_event

definition is_panic :: "'a outcome \<Rightarrow> bool" where
  "is_panic r = (case r of Panicked msg \<Rightarrow> True | _ \<Rightarrow> False)"

definition senders_panic :: "Monitor \<Rightarrow> bool" where
  "senders_panic m = (ready_closed (rpcReady m) \<and> 0 < ready_blocked (rpcReady m))"

fun act :: "Collab \<Rightarrow> action \<Rightarrow> System \<Rightarrow> System option" where
  "act env (CallSetClient c) s =
     (case SetClient (mon s) c of (r, m) \<Rightarrow> Some (s\<lparr>mon := m, crashed := is_panic r\<rparr>))"
| "act env CallShutdown s =
     (case Shutdown (mon s) of
        (r, m) \<Rightarrow> Some (s\<lparr>mon := m, crashed := (is_panic r \<or> senders_panic m)\<rparr>))"
| "act env (CallLogMetric m) s = Some (s\<lparr>mon := snd (LogMetric (mon s) m)\<rparr>)"
| "act env (CallPublishMetric m) s = Some (s\<lparr>mon := snd (PublishMetric env (mon s) m)\<rparr>)"
| "act env ReceiveAlert s =
     (case chan_buf (alertCh (checker (mon s))) of
        [] \<Rightarrow> None
      | a # rest \<Rightarrow>
          Some (s\<lparr>mon := (mon s)\<lparr>checker :=
                  (checker (mon s))\<lparr>alertCh := (alertCh (checker (mon s)))\<lparr>chan_buf := rest\<rparr>\<rparr>\<rparr>\<rparr>))"
| "act env (GoRun c) s = run c s"
| "act env (GoRecv r) s = logFromPubsub env r s"
| "act env (GoWatch ev) s = watch_turn ev s"

definition step :: "Collab \<Rightarrow> action \<Rightarrow> System \<Rightarrow> System option" where
  "step env a s = (if crashed s then None else act env a s)"

fun exec :: "Collab \<Rightarrow> action list \<Rightarrow> System \<Rightarrow> System option" where
  "exec env [] s = Some s"
| "exec env (a # as) s = (case step env a s of None \<Rightarrow> None | Some s' \<Rightarrow> exec env as s')"

text \<open>The states a monitor made by \<^verbatim>\<open>New\<close> can reach.\<close>

inductive reachable :: "Collab \<Rightarrow> System \<Rightarrow> bool" for env :: Collab where
  reach_New: "New w None None None = Inr s \<Longrightarrow> reachable env s"
| reach_step: "reachable env s \<Longrightarrow> step env a s = Some s' \<Longrightarrow> reachable env s'"

section \<open>Notions used in the statements\<close>

text \<open>
  The alerts one sweep attempts, in the order of the loops: for each peer of the list,
  for each metric \<^verbatim>\<open>PeerMetrics\<close> returns, one alert when the metric is valid and
  expired. \<open>room\<close> is the free space of the alert channel, \<open>enqueue\<close> appends alerts
  to its buffer.
\<close>

definition due :: "time \<Rightarrow> Metric list \<Rightarrow> Alert list" where
  "due now ms = map (\<lambda>m. Alert (Peer m) (Name m)) (filter (\<lambda>m. Valid m \<and> Expired m now) ms)"

definition sweep :: "time \<Rightarrow> MetricStore \<Rightarrow> peer_id list \<Rightarrow> Alert list" where
  "sweep now mtrs peers = concat (map (\<lambda>p. due now (PeerMetrics mtrs p)) peers)"

definition room :: "MetricsChecker \<Rightarrow> nat" where
  "room mc = chan_cap (alertCh mc) - length (chan_buf (alertCh mc))"

definition enqueue :: "Alert list \<Rightarrow> MetricsChecker \<Rightarrow> MetricsChecker" where
  "enqueue as mc = mc\<lparr>alertCh := (alertCh mc)\<lparr>chan_buf := chan_buf (alertCh mc) @ as\<rparr>\<rparr>"

definition full_unless :: "bool \<Rightarrow> error option" where
  "full_unless ok = (if ok then None else Some ErrAlertChannelFull)"

text \<open>
  A peer's kind is overdue when its latest stored metric is valid and expired; the
  number of alerts a sweep owes for it is one or none.
\<close>

definition overdue :: "time \<Rightarrow> MetricStore \<Rightarrow> peer_id \<Rightarrow> string \<Rightarrow> bool" where
  "overdue now mtrs p k =
     (case latest_metric mtrs p k of None \<Rightarrow> False | Some m \<Rightarrow> Valid m \<and> Expired m now)"

definition one_if :: "bool \<Rightarrow> nat" where
  "one_if b = (if b then 1 else 0)"

definition chan_ok :: "AlertChan \<Rightarrow> bool" where
  "chan_ok ch = (length (chan_buf ch) \<le> chan_cap ch)"

text \<open>
  The metrics an action brings to the monitor (one handed to \<^verbatim>\<open>LogMetric\<close>, one that
  decodes from a message \<^verbatim>\<open>Next\<close> returns), and the metric the receive loop holds
  between \<^verbatim>\<open>Next\<close> and \<^verbatim>\<open>LogMetric\<close>.
\<close>

fun brings :: "Collab \<Rightarrow> action \<Rightarrow> Metric set" where
  "brings env (CallLogMetric m) = {m}"
| "brings env (GoRecv (NextReturns (Inr data))) =
     (case Decode env data of Inl err \<Rightarrow> {} | Inr m \<Rightarrow> {m})"
| "brings env a = {}"

definition in_hand :: "Collab \<Rightarrow> System \<Rightarrow> Metric set" where
  "in_hand env s =
     (case recv_task s of
        RecvGot data \<Rightarrow> (case Decode env data of Inl err \<Rightarrow> {} | Inr m \<Rightarrow> {m})
      | _ \<Rightarrow> {})"

text \<open>
  What holds in every state a monitor reaches: the wait group is never added to and the
  lock is free between calls; the flag \<^verbatim>\<open>shutdown\<close>, the closing of \<^verbatim>\<open>rpcReady\<close> and
  the cancellation come together, with one teardown; the alert channel keeps its
  capacity and never holds more; the store is well formed.
\<close>

definition sys_inv :: "System \<Rightarrow> bool" where
  "sys_inv s =
     (wg (mon s) = 0 \<and> \<not> shutdownLock (mon s)
      \<and> shutdown (mon s) = ready_closed (rpcReady (mon s))
      \<and> shutdown (mon s) = cancelled (mon s)
      \<and> teardown (mon s) = (if shutdown (mon s) then [CloseRpcReady, CancelCtx, WaitGroupWait] else [])
      \<and> chan_cap (alertCh (checker (mon s))) = AlertChannelCap
      \<and> chan_ok (alertCh (checker (mon s)))
      \<and> store_ok (mon_metrics (mon s)))"

section \<open>Example data\<close>

text \<open>
  Two peers that reported a ping which expires at time 100, a store that holds both
  reports, a checker whose alert channel is full and one with a single free place, a
  metric with no kind, no peer and \<^verbatim>\<open>Valid == false\<close>, a codec that knows the payloads
  \<open>[1]\<close> and \<open>[0]\<close>, and a monitor as \<^verbatim>\<open>New\<close> returns it.
\<close>

definition ex_metric :: "peer_id \<Rightarrow> Metric" where
  "ex_metric p = \<lparr>Name = ''ping'', Peer = p, Value = ''1'', Expire = 100, Valid = True\<rparr>"

definition ex_bad :: Metric where
  "ex_bad = \<lparr>Name = [], Peer = [], Value = [], Expire = 0, Valid = False\<rparr>"

definition ex_store :: MetricStore where
  "ex_store = Add (Add (NewMetricStore 2) (ex_metric ''QmA'')) (ex_metric ''QmB'')"

definition ex_full :: MetricsChecker where
  "ex_full = \<lparr>alertCh = \<lparr>chan_cap = 256, chan_buf = replicate 256 (Alert ''QmB'' ''ping'')\<rparr>,
              metrics = ex_store\<rparr>"

definition ex_last :: MetricsChecker where
  "ex_last = \<lparr>alertCh = \<lparr>chan_cap = 256, chan_buf = replicate 255 (Alert ''QmB'' ''ping'')\<rparr>,
              metrics = ex_store\<rparr>"

definition ex_env :: Collab where
  "ex_env =
     \<lparr>Encode = (\<lambda>m. if Value m = ''1'' then Inr [1] else Inl (ErrExternal ''encode'')),
      Decode = (\<lambda>b. if b = [1] then Inr (ex_metric ''QmA'')
                     else if b = [0] then Inr ex_bad
                     else Inl (ErrExternal ''decode'')),
      Publish = (\<lambda>topic b. None)\<rparr>"

definition ex_sys :: System where
  "ex_sys = projr (New 2 None None None)"

definition ex_schedule :: "action list" where
  "ex_schedule =
     [CallSetClient 1, GoRun FromRpcReady, GoRecv AtSelect, GoRecv (NextReturns (Inr [1])),
      CallShutdown]"

definition observe :: "System \<Rightarrow> bool \<times> recv_pc \<times> watch_pc \<times> bool \<times> Alert list \<times> Metric set" where
  "observe s =
     (shutdown (mon s), recv_task s, watch_task s, crashed s, Monitor_Alerts (mon s),
      stored (mon_metrics (mon s)))"





section \<open>One sweep in closed form\<close>

lemma enqueue_Nil: "enqueue [] mc = mc"
  by (simp add: enqueue_def)

lemma enqueue_enqueue: "enqueue ys (enqueue xs mc) = enqueue (xs @ ys) mc"
  by (simp add: enqueue_def)

lemma room_enqueue: "room (enqueue xs mc) = room mc - length xs"
  by (simp add: room_def enqueue_def)

lemma metrics_enqueue: "metrics (enqueue xs mc) = metrics mc"
  by (simp add: enqueue_def)

lemma alert_room: "0 < room mc \<Longrightarrow> alert mc p n = (None, enqueue [Alert p n] mc)"
  by (simp add: alert_def room_def enqueue_def)

lemma alert_full: "room mc = 0 \<Longrightarrow> alert mc p n = (Some ErrAlertChannelFull, mc)"
  by (simp add: alert_def room_def)

lemma check_peer_closed:
  "check_peer now ms mc =
     (full_unless (length (due now ms) \<le> room mc), enqueue (take (room mc) (due now ms)) mc)"
proof (induction ms arbitrary: mc)
  case Nil
  then show ?case by (simp add: due_def full_unless_def enqueue_Nil)
next
  case (Cons m ms)
  show ?case
  proof (cases "Valid m \<and> Expired m now")
    case False
    then have "due now (m # ms) = due now ms" by (auto simp: due_def)
    with False Cons show ?thesis by auto
  next
    case True
    then have d: "due now (m # ms) = Alert (Peer m) (Name m) # due now ms" by (simp add: due_def)
    show ?thesis
    proof (cases "room mc")
      case 0
      then show ?thesis using True d by (simp add: alert_full full_unless_def enqueue_Nil)
    next
      case (Suc k)
      then have "0 < room mc" by simp
      then show ?thesis using True d Suc
        by (simp add: alert_room Cons room_enqueue enqueue_enqueue)
    qed
  qed
qed

lemma CheckMetrics_closed:
  "CheckMetrics now mc peers =
     (full_unless (length (sweep now (metrics mc) peers) \<le> room mc),
      enqueue (take (room mc) (sweep now (metrics mc) peers)) mc)"
proof (induction peers arbitrary: mc)
  case Nil
  then show ?case by (simp add: sweep_def full_unless_def enqueue_Nil)
next
  case (Cons p peers)
  let ?d = "due now (PeerMetrics (metrics mc) p)"
  have s: "sweep now (metrics mc) (p # peers) = ?d @ sweep now (metrics mc) peers"
    by (simp add: sweep_def)
  show ?case
  proof (cases "length ?d \<le> room mc")
    case True
    then show ?thesis
      by (simp add: check_peer_closed full_unless_def Cons metrics_enqueue room_enqueue
          enqueue_enqueue s) (auto simp: full_unless_def)
  next
    case False
    then show ?thesis
      by (simp add: check_peer_closed full_unless_def s)
  qed
qed

section \<open>Counting the alerts of a sweep\<close>

lemma kinds_ok_Nil: "kinds_ok p []"
  by (simp add: kinds_ok_def)

lemma kinds_ok_tail: "kinds_ok p (kh # ks) \<Longrightarrow> kinds_ok p ks"
  by (simp add: kinds_ok_def)

lemma kinds_ok_head_fresh: "kinds_ok p (kh # ks) \<Longrightarrow> map_of ks (fst kh) = None"
  by (auto simp: kinds_ok_def map_of_eq_None_iff)

lemma kinds_ok_newest:
  "kinds_ok p (kh # ks) \<Longrightarrow> newest (snd kh) = Some m \<Longrightarrow> Peer m = p \<and> Name m = fst kh"
  by (auto simp: kinds_ok_def newest_def split: if_splits)

lemma due_Cons:
  "due now (m # ms) = (if Valid m \<and> Expired m now then Alert (Peer m) (Name m) # due now ms else due now ms)"
  by (simp add: due_def)

lemma due_Nil: "due now [] = []"
  by (simp add: due_def)

lemma count_due_kinds:
  "kinds_ok p ks \<Longrightarrow>
   count_list (due now (List.map_filter (\<lambda>kh. newest (snd kh)) ks)) (Alert P k) =
     one_if (P = p \<and> (case map_of ks k of
                         None \<Rightarrow> False
                       | Some h \<Rightarrow> (case newest h of None \<Rightarrow> False | Some m \<Rightarrow> Valid m \<and> Expired m now)))"
proof (induction ks)
  case Nil
  then show ?case by (simp add: List.map_filter_simps due_Nil one_if_def)
next
  case (Cons kh ks)
  have ok: "kinds_ok p ks" using Cons.prems by (rule kinds_ok_tail)
  note IH = Cons.IH [OF ok]
  have fresh: "map_of ks (fst kh) = None" using Cons.prems by (rule kinds_ok_head_fresh)
  show ?case
  proof (cases "newest (snd kh)")
    case None
    then show ?thesis using IH fresh
      by (cases kh) (auto simp: List.map_filter_simps one_if_def)
  next
    case (Some m)
    then have pm: "Peer m = p" "Name m = fst kh"
      using kinds_ok_newest [OF Cons.prems] by auto
    show ?thesis using IH fresh Some pm
      by (cases kh) (auto simp: List.map_filter_simps due_Cons one_if_def)
  qed
qed

lemma store_ok_kinds_of: "store_ok mtrs \<Longrightarrow> kinds_ok p (kinds_of mtrs p)"
  by (auto simp: store_ok_def kinds_of_def kinds_ok_Nil split: option.splits dest!: map_of_SomeD)

lemma count_due_peer:
  assumes "store_ok mtrs"
  shows "count_list (due now (PeerMetrics mtrs p)) (Alert P k) = one_if (P = p \<and> overdue now mtrs p k)"
proof -
  have ok: "kinds_ok p (kinds_of mtrs p)" using assms by (rule store_ok_kinds_of)
  have "overdue now mtrs p k =
          (case map_of (kinds_of mtrs p) k of
             None \<Rightarrow> False
           | Some h \<Rightarrow> (case newest h of None \<Rightarrow> False | Some m \<Rightarrow> Valid m \<and> Expired m now))"
    by (simp add: overdue_def latest_metric_def history_def newest_def split: option.splits)
  then show ?thesis
    unfolding PeerMetrics_def by (simp add: count_due_kinds [OF ok])
qed

lemma sweep_Cons: "sweep now mtrs (p # peers) = due now (PeerMetrics mtrs p) @ sweep now mtrs peers"
  by (simp add: sweep_def)

lemma count_sweep_le:
  "store_ok mtrs \<Longrightarrow> P \<notin> set peers \<Longrightarrow> count_list (sweep now mtrs peers) (Alert P k) = 0"
  by (induction peers) (auto simp: sweep_Cons count_due_peer one_if_def sweep_def)

lemma count_sweep:
  "store_ok mtrs \<Longrightarrow> distinct peers \<Longrightarrow>
   count_list (sweep now mtrs peers) (Alert P k) = one_if (P \<in> set peers \<and> overdue now mtrs P k)"
proof (induction peers)
  case Nil
  then show ?case by (simp add: sweep_def one_if_def)
next
  case (Cons p peers)
  then show ?case
    by (auto simp: sweep_Cons count_due_peer count_sweep_le one_if_def)
qed

lemma count_take_le: "count_list (take n xs) a \<le> count_list xs a"
proof (induction xs arbitrary: n)
  case Nil
  then show ?case by simp
next
  case (Cons x xs)
  then show ?case by (cases n) (auto intro: le_SucI)
qed

section \<open>The store under \<^verbatim>\<open>Add\<close>\<close>

lemma set_update_subset: "set (AList.update k v al) \<subseteq> insert (k, v) (set al)"
  by (induction al) auto

lemma update_mem: "(k, v) \<in> set (AList.update k v al)"
  by (induction al) auto

lemma set_window_add: "set (window_add w h m) \<subseteq> insert m (set h)"
  by (cases h) (auto simp: window_add_def)

lemma window_add_mem: "m \<in> set (window_add w h m)"
  by (simp add: window_add_def)

lemma last_window_add: "newest (window_add w h m) = Some m"
  by (simp add: window_add_def newest_def)

lemma kinds_of_cases:
  "kinds_of mtrs p = [] \<or> (p, kinds_of mtrs p) \<in> set (byPeer mtrs)"
  by (auto simp: kinds_of_def split: option.splits dest: map_of_SomeD)

lemma history_cases:
  "history mtrs p k = [] \<or> (k, history mtrs p k) \<in> set (kinds_of mtrs p)"
  by (auto simp: history_def split: option.splits dest: map_of_SomeD)

lemma history_stored: "set (history mtrs p k) \<subseteq> stored mtrs"
proof -
  consider "history mtrs p k = []"
    | "(k, history mtrs p k) \<in> set (kinds_of mtrs p)" "(p, kinds_of mtrs p) \<in> set (byPeer mtrs)"
    using history_cases [of mtrs p k] kinds_of_cases [of mtrs p] by auto
  then show ?thesis
  proof cases
    case 1
    then show ?thesis by simp
  next
    case 2
    then show ?thesis unfolding stored_def by force
  qed
qed

lemma kinds_of_stored:
  "kh \<in> set (kinds_of mtrs p) \<Longrightarrow> set (snd kh) \<subseteq> stored mtrs"
  using kinds_of_cases [of mtrs p] unfolding stored_def by force

lemma stored_Add_subset: "stored (Add mtrs m) \<subseteq> insert m (stored mtrs)"
proof
  fix x
  assume "x \<in> stored (Add mtrs m)"
  then obtain pk kh where pk: "pk \<in> set (byPeer (Add mtrs m))" and kh: "kh \<in> set (snd pk)"
    and x: "x \<in> set (snd kh)"
    by (auto simp: stored_def)
  let ?h = "window_add (WindowCap mtrs) (history mtrs (Peer m) (Name m)) m"
  let ?ks = "AList.update (Name m) ?h (kinds_of mtrs (Peer m))"
  from pk have "pk = (Peer m, ?ks) \<or> pk \<in> set (byPeer mtrs)"
    using set_update_subset [of "Peer m" ?ks "byPeer mtrs"] by (auto simp: Add_def)
  then show "x \<in> insert m (stored mtrs)"
  proof
    assume old: "pk \<in> set (byPeer mtrs)"
    with kh x show ?thesis by (auto simp: stored_def)
  next
    assume "pk = (Peer m, ?ks)"
    with kh have "kh = (Name m, ?h) \<or> kh \<in> set (kinds_of mtrs (Peer m))"
      using set_update_subset [of "Name m" ?h "kinds_of mtrs (Peer m)"] by auto
    then show ?thesis
    proof
      assume "kh \<in> set (kinds_of mtrs (Peer m))"
      with x show ?thesis using kinds_of_stored by blast
    next
      assume "kh = (Name m, ?h)"
      with x have "x \<in> insert m (set (history mtrs (Peer m) (Name m)))"
        using set_window_add by fastforce
      then show ?thesis using history_stored by blast
    qed
  qed
qed

lemma stored_Add_mem: "m \<in> stored (Add mtrs m)"
proof -
  let ?h = "window_add (WindowCap mtrs) (history mtrs (Peer m) (Name m)) m"
  let ?ks = "AList.update (Name m) ?h (kinds_of mtrs (Peer m))"
  have "(Peer m, ?ks) \<in> set (byPeer (Add mtrs m))"
    by (simp add: Add_def update_mem)
  moreover have "(Name m, ?h) \<in> set ?ks" by (rule update_mem)
  moreover have "m \<in> set ?h" by (rule window_add_mem)
  ultimately show ?thesis unfolding stored_def by force
qed

lemma stored_New: "stored (NewMetricStore w) = {}"
  by (simp add: stored_def NewMetricStore_def)

lemma store_ok_New: "store_ok (NewMetricStore w)"
  by (simp add: store_ok_def NewMetricStore_def)

lemma kinds_ok_update:
  assumes "kinds_ok p ks" and "\<forall>x \<in> set h. Peer x = p \<and> Name x = k"
  shows "kinds_ok p (AList.update k h ks)"
proof -
  have "distinct (map fst (AList.update k h ks))"
    using assms(1) by (simp add: kinds_ok_def distinct_update)
  moreover have "\<forall>kh \<in> set (AList.update k h ks). \<forall>x \<in> set (snd kh). Peer x = p \<and> Name x = fst kh"
    using assms set_update_subset [of k h ks] by (fastforce simp: kinds_ok_def)
  ultimately show ?thesis by (simp add: kinds_ok_def)
qed

lemma store_ok_history:
  assumes "store_ok mtrs" and "x \<in> set (history mtrs p k)"
  shows "Peer x = p \<and> Name x = k"
proof -
  have ok: "kinds_ok p (kinds_of mtrs p)" using assms(1) by (rule store_ok_kinds_of)
  from assms(2) have "(k, history mtrs p k) \<in> set (kinds_of mtrs p)"
    using history_cases [of mtrs p k] by auto
  with ok assms(2) show ?thesis by (fastforce simp: kinds_ok_def)
qed

lemma store_ok_Add:
  assumes "store_ok mtrs"
  shows "store_ok (Add mtrs m)"
proof -
  let ?h = "window_add (WindowCap mtrs) (history mtrs (Peer m) (Name m)) m"
  let ?ks = "AList.update (Name m) ?h (kinds_of mtrs (Peer m))"
  have "\<forall>x \<in> set ?h. Peer x = Peer m \<and> Name x = Name m"
    using set_window_add [of "WindowCap mtrs" "history mtrs (Peer m) (Name m)" m]
      store_ok_history [OF assms] by blast
  then have ks: "kinds_ok (Peer m) ?ks"
    using store_ok_kinds_of [OF assms] by (rule kinds_ok_update [rotated])
  have "distinct (map fst (byPeer (Add mtrs m)))"
    using assms by (simp add: Add_def store_ok_def distinct_update)
  moreover have "\<forall>pk \<in> set (byPeer (Add mtrs m)). kinds_ok (fst pk) (snd pk)"
    using assms ks set_update_subset [of "Peer m" ?ks "byPeer mtrs"]
    by (fastforce simp: Add_def store_ok_def)
  ultimately show ?thesis by (simp add: store_ok_def)
qed

lemma latest_metric_Add: "latest_metric (Add mtrs m) (Peer m) (Name m) = Some m"
  by (simp add: latest_metric_def history_def kinds_of_def Add_def update_conv' last_window_add)

section \<open>Invariants of the reachable states\<close>

lemma chan_ok_enqueue_take:
  "chan_ok (alertCh mc) \<Longrightarrow> chan_ok (alertCh (enqueue (take (room mc) xs) mc))"
  by (auto simp: chan_ok_def enqueue_def room_def)

lemma CheckMetrics_snd:
  "snd (CheckMetrics now mc peers) = enqueue (take (room mc) (sweep now (metrics mc) peers)) mc"
  by (simp add: CheckMetrics_closed)

lemma CheckMetrics_chan_ok:
  "chan_ok (alertCh mc) \<Longrightarrow> chan_ok (alertCh (snd (CheckMetrics now mc peers)))"
  by (simp add: CheckMetrics_snd chan_ok_enqueue_take)

lemma CheckMetrics_cap:
  "chan_cap (alertCh (snd (CheckMetrics now mc peers))) = chan_cap (alertCh mc)"
  by (simp add: CheckMetrics_snd enqueue_def)

lemma CheckMetrics_metrics:
  "metrics (snd (CheckMetrics now mc peers)) = metrics mc"
  by (simp add: CheckMetrics_snd enqueue_def)

lemma Watch_select_Tick:
  "Watch_select (Tick call now) mc =
     (False, case snd call of Some e \<Rightarrow> mc | None \<Rightarrow> snd (CheckMetrics now mc (fst call)))"
  by (cases call) (simp split: option.splits)

lemma Watch_select_keeps:
  "metrics (snd (Watch_select ev mc)) = metrics mc"
  "chan_cap (alertCh (snd (Watch_select ev mc))) = chan_cap (alertCh mc)"
  "chan_ok (alertCh mc) \<Longrightarrow> chan_ok (alertCh (snd (Watch_select ev mc)))"
  by (cases ev;
      simp add: Watch_select_Tick CheckMetrics_metrics CheckMetrics_cap CheckMetrics_chan_ok
        split: option.splits)+

lemma sys_inv_New: "New w None None None = Inr s \<Longrightarrow> sys_inv s"
  by (auto simp: New_def sys_inv_def NewMetricsChecker_def chan_ok_def mon_metrics_def store_ok_New)

lemma sys_inv_SetClient:
  "sys_inv s \<Longrightarrow> sys_inv (s\<lparr>mon := snd (SetClient (mon s) c), crashed := b\<rparr>)"
  by (auto simp: sys_inv_def SetClient_def ready_send_def mon_metrics_def Let_def)

lemma sys_inv_Shutdown:
  "sys_inv s \<Longrightarrow> sys_inv (s\<lparr>mon := snd (Shutdown (mon s)), crashed := b\<rparr>)"
  by (auto simp: sys_inv_def Shutdown_def ready_close_def mon_metrics_def Let_def)

lemma sys_inv_LogMetric:
  "sys_inv s \<Longrightarrow> sys_inv (s\<lparr>mon := snd (LogMetric (mon s) m)\<rparr>)"
  by (auto simp: sys_inv_def LogMetric_def mon_metrics_def store_ok_Add)

lemma sys_inv_PublishMetric:
  "sys_inv s \<Longrightarrow> sys_inv (s\<lparr>mon := snd (PublishMetric env (mon s) m)\<rparr>)"
  by (auto simp: sys_inv_def PublishMetric_def mon_metrics_def Let_def split: sum.splits option.splits)

lemma sys_inv_run: "sys_inv s \<Longrightarrow> run c s = Some s' \<Longrightarrow> sys_inv s'"
  by (cases c) (auto simp: sys_inv_def ready_recv_def mon_metrics_def split: if_splits option.splits)

lemma sys_inv_recv: "sys_inv s \<Longrightarrow> logFromPubsub env r s = Some s' \<Longrightarrow> sys_inv s'"
  by (cases r)
    (auto simp: sys_inv_def LogMetric_def mon_metrics_def store_ok_Add
      split: if_splits sum.splits recv_pc.splits)

lemma Watch_select_result:
  assumes "Watch_select ev mc = (r, mc')"
  shows "metrics mc' = metrics mc" and "chan_cap (alertCh mc') = chan_cap (alertCh mc)"
    and "chan_ok (alertCh mc) \<Longrightarrow> chan_ok (alertCh mc')"
  using Watch_select_keeps [where ev = ev and mc = mc] assms by simp_all

lemma sys_inv_watch:
  assumes "sys_inv s" and "watch_turn ev s = Some s'"
  shows "sys_inv s'"
proof -
  obtain r chk where w: "Watch_select (watch_call (mon s) ev) (checker (mon s)) = (r, chk)"
    by (cases "Watch_select (watch_call (mon s) ev) (checker (mon s))")
  with assms(2) have s': "s' = s\<lparr>mon := (mon s)\<lparr>checker := chk\<rparr>,
      watch_task := (if r then WatchReturned else WatchLoop)\<rparr>"
    by (auto simp: watch_turn_def split: if_splits)
  show ?thesis
    using assms(1) Watch_select_result [OF w]
    by (auto simp: s' sys_inv_def mon_metrics_def)
qed

lemma sys_inv_receive:
  "sys_inv s \<Longrightarrow> act env ReceiveAlert s = Some s' \<Longrightarrow> sys_inv s'"
  by (auto simp: sys_inv_def mon_metrics_def chan_ok_def split: list.splits)

lemma sys_inv_act: "sys_inv s \<Longrightarrow> act env a s = Some s' \<Longrightarrow> sys_inv s'"
proof (cases a)
  case (CallSetClient c)
  assume "sys_inv s" "act env a s = Some s'"
  then show ?thesis using CallSetClient sys_inv_SetClient [where s = s and c = c]
    by (auto split: prod.splits)
next
  case CallShutdown
  assume "sys_inv s" "act env a s = Some s'"
  then show ?thesis using CallShutdown sys_inv_Shutdown [where s = s]
    by (auto split: prod.splits)
next
  case (CallLogMetric m)
  assume "sys_inv s" "act env a s = Some s'"
  then show ?thesis using CallLogMetric sys_inv_LogMetric [where s = s and m = m] by auto
next
  case (CallPublishMetric m)
  assume "sys_inv s" "act env a s = Some s'"
  then show ?thesis using CallPublishMetric sys_inv_PublishMetric [where s = s and m = m and env = env] by auto
next
  case ReceiveAlert
  assume "sys_inv s" "act env a s = Some s'"
  then show ?thesis using ReceiveAlert sys_inv_receive by blast
next
  case (GoRun c)
  assume "sys_inv s" "act env a s = Some s'"
  then show ?thesis using GoRun sys_inv_run by auto
next
  case (GoRecv r)
  assume "sys_inv s" "act env a s = Some s'"
  then show ?thesis using GoRecv sys_inv_recv by auto
next
  case (GoWatch ev)
  assume "sys_inv s" "act env a s = Some s'"
  then show ?thesis using GoWatch sys_inv_watch by auto
qed

lemma sys_inv_step: "sys_inv s \<Longrightarrow> step env a s = Some s' \<Longrightarrow> sys_inv s'"
  by (auto simp: step_def split: if_splits intro: sys_inv_act)

lemma reachable_inv: "reachable env s \<Longrightarrow> sys_inv s"
  by (induction rule: reachable.induct) (auto intro: sys_inv_New sys_inv_step)

lemma reachable_exec: "reachable env s \<Longrightarrow> exec env acts s = Some s' \<Longrightarrow> reachable env s'"
  by (induction acts arbitrary: s) (auto split: option.splits intro: reach_step)

section \<open>Where the stored metrics come from\<close>

lemma mon_metrics_LogMetric: "mon_metrics (snd (LogMetric m x)) = Add (mon_metrics m) x"
  by (simp add: LogMetric_def mon_metrics_def)

lemma mon_metrics_PublishMetric: "mon_metrics (snd (PublishMetric env m x)) = mon_metrics m"
  by (simp add: PublishMetric_def mon_metrics_def Let_def split: sum.splits option.splits)

lemma mon_metrics_SetClient: "mon_metrics (snd (SetClient m c)) = mon_metrics m"
  by (simp add: SetClient_def mon_metrics_def Let_def split: prod.splits)

lemma mon_metrics_Shutdown: "mon_metrics (snd (Shutdown m)) = mon_metrics m"
  by (simp add: Shutdown_def mon_metrics_def Let_def split: option.splits)

lemma act_brings:
  assumes "act env a s = Some s'"
  shows "stored (mon_metrics (mon s')) \<union> in_hand env s'
           \<subseteq> stored (mon_metrics (mon s)) \<union> in_hand env s \<union> brings env a"
proof (cases a)
  case (CallSetClient c)
  with assms show ?thesis
    by (auto simp: mon_metrics_SetClient in_hand_def split: prod.splits dest!: arg_cong [where f = snd])
next
  case CallShutdown
  with assms show ?thesis
    using mon_metrics_Shutdown [of "mon s"] by (auto simp: in_hand_def split: prod.splits)
next
  case (CallLogMetric m)
  with assms show ?thesis
    using stored_Add_subset [of "mon_metrics (mon s)" m]
    by (auto simp: mon_metrics_LogMetric in_hand_def)
next
  case (CallPublishMetric m)
  with assms show ?thesis
    by (auto simp: mon_metrics_PublishMetric in_hand_def)
next
  case ReceiveAlert
  with assms show ?thesis
    by (auto simp: mon_metrics_def in_hand_def split: list.splits)
next
  case (GoRun c)
  with assms show ?thesis
    by (cases c) (auto simp: mon_metrics_def in_hand_def split: if_splits option.splits)
next
  case (GoRecv r)
  show ?thesis
  proof (cases r)
    case AtSelect
    with assms GoRecv show ?thesis
      by (auto simp: in_hand_def split: if_splits)
  next
    case (NextReturns x)
    with assms GoRecv show ?thesis
      by (cases x) (auto simp: in_hand_def split: if_splits sum.splits)
  next
    case Handle
    with assms GoRecv show ?thesis
      using stored_Add_subset
      by (fastforce simp: in_hand_def mon_metrics_LogMetric split: recv_pc.splits sum.splits)
  qed
next
  case (GoWatch ev)
  obtain r chk where w: "Watch_select (watch_call (mon s) ev) (checker (mon s)) = (r, chk)"
    by (cases "Watch_select (watch_call (mon s) ev) (checker (mon s))")
  with assms GoWatch have s': "s' = s\<lparr>mon := (mon s)\<lparr>checker := chk\<rparr>,
      watch_task := (if r then WatchReturned else WatchLoop)\<rparr>"
    by (auto simp: watch_turn_def split: if_splits)
  show ?thesis using Watch_select_result(1) [OF w]
    by (auto simp: s' mon_metrics_def in_hand_def)
qed

lemma exec_brings:
  "exec env acts s = Some s' \<Longrightarrow>
   stored (mon_metrics (mon s')) \<union> in_hand env s'
     \<subseteq> stored (mon_metrics (mon s)) \<union> in_hand env s \<union> (\<Union>a \<in> set acts. brings env a)"
proof (induction acts arbitrary: s)
  case Nil
  then show ?case by simp
next
  case (Cons a acts)
  from Cons.prems obtain s1 where a: "act env a s = Some s1" and rest: "exec env acts s1 = Some s'"
    by (auto simp: step_def split: option.splits if_splits)
  from Cons.IH [OF rest] act_brings [OF a] show ?case by auto
qed

lemma New_empty:
  "New w None None None = Inr s \<Longrightarrow> stored (mon_metrics (mon s)) = {} \<and> in_hand env s = {}"
  by (auto simp: New_def mon_metrics_def NewMetricsChecker_def stored_New in_hand_def)

section \<open>The example data, evaluated\<close>

lemmas store_defs = NewMetricStore_def Add_def window_add_def kinds_of_def history_def newest_def
  PeerMetrics_def latest_metric_def List.map_filter_simps Expired_def

lemma ex_store_value:
  "ex_store =
     \<lparr>WindowCap = 2,
      byPeer = [(''QmA'', [(''ping'', [ex_metric ''QmA''])]),
                (''QmB'', [(''ping'', [ex_metric ''QmB''])])]\<rparr>"
  by (simp add: ex_store_def store_defs ex_metric_def)

lemma ex_store_ok: "store_ok ex_store"
  unfolding ex_store_def by (intro store_ok_Add store_ok_New)

lemma ex_PeerMetrics:
  "PeerMetrics ex_store ''QmA'' = [ex_metric ''QmA'']"
  "PeerMetrics ex_store ''QmB'' = [ex_metric ''QmB'']"
  by (simp_all add: ex_store_value store_defs)

section \<open>The alert queue\<close>

lemma alert_chan_ok: "chan_ok (alertCh mc) \<Longrightarrow> chan_ok (alertCh (snd (alert mc pid name)))"
  by (simp add: alert_def chan_ok_def)

lemma alert_cap: "chan_cap (alertCh (snd (alert mc pid name))) = chan_cap (alertCh mc)"
  by (simp add: alert_def)

lemma alert_when_full:
  "length (chan_buf (alertCh mc)) = chan_cap (alertCh mc) \<Longrightarrow>
   alert mc pid name = (Some ErrAlertChannelFull, mc)"
  by (simp add: alert_def)

lemma reachable_alerts_bounded:
  "reachable env s \<Longrightarrow> length (Monitor_Alerts (mon s)) \<le> 256"
  using reachable_inv [of env s]
  by (simp add: sys_inv_def chan_ok_def Monitor_Alerts_def Alerts_def AlertChannelCap_def)

lemma New_reachable: "reachable env ex_sys"
  by (rule reach_New [of 2]) (simp add: ex_sys_def New_def)

text \<open>
  Claim C5. The alert queue is made with capacity 256 and empty. \<^verbatim>\<open>alert\<close> and
  \<^verbatim>\<open>CheckMetrics\<close> leave the capacity as it is and never put more alerts into the
  queue than the capacity allows; in every state a monitor reaches the queue holds at
  most 256 alerts. When the queue holds as many alerts as its capacity, \<^verbatim>\<open>alert\<close>
  returns \<^verbatim>\<open>ErrAlertChannelFull\<close> at once (the model has no blocked outcome for it)
  and the checker, with its queue, is unchanged.
\<close>

theorem alert_queue_bounded:
  "chan_cap (alertCh (NewMetricsChecker mtrs)) = 256
   \<and> chan_buf (alertCh (NewMetricsChecker mtrs)) = []
   \<and> (chan_ok (alertCh mc) \<longrightarrow>
        chan_ok (alertCh (snd (alert mc pid name)))
        \<and> chan_ok (alertCh (snd (CheckMetrics now mc peers))))
   \<and> chan_cap (alertCh (snd (alert mc pid name))) = chan_cap (alertCh mc)
   \<and> chan_cap (alertCh (snd (CheckMetrics now mc peers))) = chan_cap (alertCh mc)
   \<and> (length (chan_buf (alertCh mc)) = chan_cap (alertCh mc) \<longrightarrow>
        alert mc pid name = (Some ErrAlertChannelFull, mc))
   \<and> (reachable env s \<longrightarrow> length (Monitor_Alerts (mon s)) \<le> 256)"
  by (simp add: NewMetricsChecker_def AlertChannelCap_def alert_chan_ok CheckMetrics_chan_ok
      alert_cap CheckMetrics_cap alert_when_full reachable_alerts_bounded)

theorem alert_queue_bounded_witness:
  "chan_ok (alertCh ex_full)
   \<and> length (chan_buf (alertCh ex_full)) = chan_cap (alertCh ex_full)
   \<and> chan_cap (alertCh ex_full) = 256
   \<and> alert ex_full ''QmA'' ''ping'' = (Some ErrAlertChannelFull, ex_full)
   \<and> chan_ok (alertCh (snd (CheckMetrics 200 ex_full [''QmA''])))
   \<and> reachable ex_env ex_sys
   \<and> length (Monitor_Alerts (mon ex_sys)) \<le> 256"
proof -
  have ok: "chan_ok (alertCh ex_full)" by (simp add: ex_full_def chan_ok_def)
  have full: "length (chan_buf (alertCh ex_full)) = chan_cap (alertCh ex_full)"
    by (simp add: ex_full_def)
  have r: "reachable ex_env ex_sys" by (rule New_reachable)
  show ?thesis
    using ok full r
      alert_queue_bounded [of ex_store ex_full "''QmA''" "''ping''" 200 "[''QmA'']" ex_env ex_sys]
    by (simp add: ex_full_def)
qed

section \<open>The errors of a sweep\<close>

lemma alert_fails_iff: "fst (alert mc pid name) = Some ErrAlertChannelFull \<longleftrightarrow> room mc = 0"
  by (auto simp: alert_def room_def)

lemma some_attempt_fails_iff:
  "(\<exists>n<length as. fst (alert (enqueue (take n as) mc) (Alert_Peer (as ! n)) (Alert_MetricName (as ! n)))
        = Some ErrAlertChannelFull)
   \<longleftrightarrow> \<not> length as \<le> room mc"
proof -
  have "\<And>n. n < length as \<Longrightarrow> room (enqueue (take n as) mc) = room mc - n"
    by (simp add: room_enqueue)
  then have "(\<exists>n<length as. room (enqueue (take n as) mc) = 0) \<longleftrightarrow> (\<exists>n<length as. room mc \<le> n)"
    by auto
  also have "\<dots> \<longleftrightarrow> \<not> length as \<le> room mc"
    by (auto simp: not_le)
  finally show ?thesis by (simp add: alert_fails_iff)
qed

lemma sweep_append: "sweep now mtrs (ps @ qs) = sweep now mtrs ps @ sweep now mtrs qs"
  by (simp add: sweep_def)

lemma CheckMetrics_stops:
  assumes "fst (CheckMetrics now mc peers) \<noteq> None"
  shows "CheckMetrics now mc (peers @ later) = CheckMetrics now mc peers"
proof -
  from assms have "\<not> length (sweep now (metrics mc) peers) \<le> room mc"
    by (auto simp: CheckMetrics_closed full_unless_def split: if_splits)
  then show ?thesis
    by (simp add: CheckMetrics_closed sweep_append full_unless_def)
qed

text \<open>
  Claim C4. \<^verbatim>\<open>CheckMetrics\<close> returns no error or \<^verbatim>\<open>ErrAlertChannelFull\<close>. It
  returns the error exactly when the enqueue of one of the alerts the sweep attempts
  fails: the \<open>n\<close>-th alert of the sweep, attempted after the \<open>n\<close> alerts before it were
  enqueued, finds the queue full. The queue then holds the alerts before the failing
  one and none after it, and the result is the same whatever peers follow in the list:
  they are not examined. When no enqueue fails, no error is returned.
\<close>

theorem CheckMetrics_error_iff_queue_full:
  "(fst (CheckMetrics now mc peers) = None \<or> fst (CheckMetrics now mc peers) = Some ErrAlertChannelFull)
   \<and> (fst (CheckMetrics now mc peers) = Some ErrAlertChannelFull \<longleftrightarrow>
        (\<exists>n<length (sweep now (metrics mc) peers).
           fst (alert (enqueue (take n (sweep now (metrics mc) peers)) mc)
                  (Alert_Peer (sweep now (metrics mc) peers ! n))
                  (Alert_MetricName (sweep now (metrics mc) peers ! n)))
             = Some ErrAlertChannelFull))
   \<and> snd (CheckMetrics now mc peers) = enqueue (take (room mc) (sweep now (metrics mc) peers)) mc
   \<and> (fst (CheckMetrics now mc peers) = Some ErrAlertChannelFull \<longrightarrow>
        CheckMetrics now mc (peers @ later) = CheckMetrics now mc peers)"
proof -
  have a: "fst (CheckMetrics now mc peers) = full_unless (length (sweep now (metrics mc) peers) \<le> room mc)"
    by (simp add: CheckMetrics_closed)
  have b: "fst (CheckMetrics now mc peers) = Some ErrAlertChannelFull \<longleftrightarrow>
           \<not> length (sweep now (metrics mc) peers) \<le> room mc"
    by (simp add: a full_unless_def)
  show ?thesis
    using CheckMetrics_stops [of now mc peers later]
    by (simp add: b some_attempt_fails_iff CheckMetrics_snd) (simp add: a full_unless_def)
qed

lemma ex_sweep: "sweep 200 ex_store [''QmA'', ''QmB''] = [Alert ''QmA'' ''ping'', Alert ''QmB'' ''ping'']"
  by (simp add: sweep_def due_def ex_PeerMetrics ex_metric_def Expired_def)

theorem CheckMetrics_error_iff_queue_full_witness:
  "CheckMetrics 200 ex_last [''QmA'', ''QmB'']
     = (Some ErrAlertChannelFull, enqueue [Alert ''QmA'' ''ping''] ex_last)
   \<and> fst (alert (enqueue [Alert ''QmA'' ''ping''] ex_last) ''QmB'' ''ping'') = Some ErrAlertChannelFull
   \<and> CheckMetrics 200 ex_last ([''QmA'', ''QmB''] @ [''QmA''])
     = CheckMetrics 200 ex_last [''QmA'', ''QmB'']"
proof -
  have m: "metrics ex_last = ex_store" by (simp add: ex_last_def)
  have r: "room ex_last = 1" by (simp add: ex_last_def room_def)
  have r2: "room (enqueue [Alert ''QmA'' ''ping''] ex_last) = 0" by (simp add: room_enqueue r)
  have f: "\<exists>n<length (sweep 200 (metrics ex_last) [''QmA'', ''QmB'']).
           fst (alert (enqueue (take n (sweep 200 (metrics ex_last) [''QmA'', ''QmB''])) ex_last)
                  (Alert_Peer (sweep 200 (metrics ex_last) [''QmA'', ''QmB''] ! n))
                  (Alert_MetricName (sweep 200 (metrics ex_last) [''QmA'', ''QmB''] ! n)))
             = Some ErrAlertChannelFull"
    by (rule exI [of _ 1]) (simp add: m ex_sweep alert_fails_iff r2)
  from CheckMetrics_error_iff_queue_full [of 200 ex_last "[''QmA'', ''QmB'']" "[''QmA'']"] f
  have e: "fst (CheckMetrics 200 ex_last [''QmA'', ''QmB'']) = Some ErrAlertChannelFull"
    and s: "snd (CheckMetrics 200 ex_last [''QmA'', ''QmB''])
              = enqueue (take (room ex_last) (sweep 200 (metrics ex_last) [''QmA'', ''QmB''])) ex_last"
    and t: "CheckMetrics 200 ex_last ([''QmA'', ''QmB''] @ [''QmA'']) = CheckMetrics 200 ex_last [''QmA'', ''QmB'']"
    by blast+
  from s have s': "snd (CheckMetrics 200 ex_last [''QmA'', ''QmB'']) = enqueue [Alert ''QmA'' ''ping''] ex_last"
    by (simp add: m r ex_sweep)
  show ?thesis using e s' t
    by (simp add: prod_eq_iff alert_fails_iff r2)
qed

section \<open>The alerts of a sweep\<close>

lemma Alerts_enqueue: "Alerts (enqueue xs mc) = Alerts mc @ xs"
  by (simp add: Alerts_def enqueue_def)

text \<open>
  Claim C3, as amended. For a well-formed store and a list of distinct peers, the
  alerts one sweep adds to the queue hold at most one alert for a peer \<open>P\<close> and a kind
  \<open>k\<close>, and none unless \<open>P\<close> is in the list and the latest stored metric of \<open>P\<close> and
  \<open>k\<close> is valid and expired; when \<^verbatim>\<open>CheckMetrics\<close> returns no error they hold exactly
  one for each such \<open>P\<close> and \<open>k\<close>. (As stated, with no condition on the queue, the claim
  fails: the counterexample below is a sweep on a full queue, which emits nothing, and
  a sweep over a list that names a peer twice, which emits its alert twice.)
\<close>

theorem CheckMetrics_alerts_counted:
  assumes "store_ok (metrics mc)" and "distinct peers"
  shows "\<exists>new. Alerts (snd (CheckMetrics now mc peers)) = Alerts mc @ new
           \<and> (\<forall>P k. count_list new (Alert P k)
                        \<le> one_if (P \<in> set peers \<and> overdue now (metrics mc) P k)
                    \<and> (fst (CheckMetrics now mc peers) = None \<longrightarrow>
                          count_list new (Alert P k)
                            = one_if (P \<in> set peers \<and> overdue now (metrics mc) P k)))"
proof (intro exI conjI allI impI)
  let ?all = "sweep now (metrics mc) peers"
  show "Alerts (snd (CheckMetrics now mc peers)) = Alerts mc @ take (room mc) ?all"
    by (simp add: CheckMetrics_snd Alerts_enqueue)
  fix P k
  have "count_list (take (room mc) ?all) (Alert P k) \<le> count_list ?all (Alert P k)"
    by (rule count_take_le)
  then show "count_list (take (room mc) ?all) (Alert P k)
               \<le> one_if (P \<in> set peers \<and> overdue now (metrics mc) P k)"
    by (simp add: count_sweep [OF assms])
  assume "fst (CheckMetrics now mc peers) = None"
  then have "length ?all \<le> room mc"
    by (simp add: CheckMetrics_closed full_unless_def split: if_splits)
  then show "count_list (take (room mc) ?all) (Alert P k)
               = one_if (P \<in> set peers \<and> overdue now (metrics mc) P k)"
    by (simp add: count_sweep [OF assms])
qed

lemma ex_overdue: "overdue 200 ex_store ''QmA'' ''ping''"
  by (simp add: overdue_def latest_metric_def history_def kinds_of_def ex_store_value newest_def
      ex_metric_def Expired_def)

theorem CheckMetrics_alerts_counted_witness:
  "store_ok (metrics (NewMetricsChecker ex_store)) \<and> distinct [''QmA'']
   \<and> fst (CheckMetrics 200 (NewMetricsChecker ex_store) [''QmA'']) = None
   \<and> overdue 200 ex_store ''QmA'' ''ping'' \<and> overdue 200 ex_store ''QmB'' ''ping''
   \<and> (\<exists>new. Alerts (snd (CheckMetrics 200 (NewMetricsChecker ex_store) [''QmA''])) = new
          \<and> count_list new (Alert ''QmA'' ''ping'') = 1
          \<and> count_list new (Alert ''QmB'' ''ping'') = 0)"
proof -
  let ?mc = "NewMetricsChecker ex_store"
  have ok: "store_ok (metrics ?mc)" by (simp add: NewMetricsChecker_def ex_store_ok)
  have d: "distinct [''QmA'']" by simp
  have m: "metrics ?mc = ex_store" by (simp add: NewMetricsChecker_def)
  have a: "Alerts ?mc = []" by (simp add: NewMetricsChecker_def Alerts_def)
  have none: "fst (CheckMetrics 200 ?mc [''QmA'']) = None"
    by (simp add: NewMetricsChecker_def ex_PeerMetrics ex_metric_def alert_def Expired_def
        AlertChannelCap_def)
  have oB: "overdue 200 ex_store ''QmB'' ''ping''"
    by (simp add: overdue_def latest_metric_def history_def kinds_of_def ex_store_value newest_def
        ex_metric_def Expired_def)
  from CheckMetrics_alerts_counted [OF ok d, of 200]
  obtain new where n: "Alerts (snd (CheckMetrics 200 ?mc [''QmA''])) = Alerts ?mc @ new"
    and c: "\<And>P k. fst (CheckMetrics 200 ?mc [''QmA'']) = None \<longrightarrow>
              count_list new (Alert P k) = one_if (P \<in> set [''QmA''] \<and> overdue 200 (metrics ?mc) P k)"
    by blast
  have "count_list new (Alert ''QmA'' ''ping'') = 1"
    using c [of "''QmA''" "''ping''"] none ex_overdue by (simp add: m one_if_def)
  moreover have "count_list new (Alert ''QmB'' ''ping'') = 0"
    using c [of "''QmB''" "''ping''"] none by (simp add: m one_if_def)
  ultimately show ?thesis using ok d none ex_overdue oB n a by simp
qed

theorem CheckMetrics_alerts_counterexample:
  "store_ok (metrics ex_full) \<and> ''QmA'' \<in> set [''QmA''] \<and> overdue 200 (metrics ex_full) ''QmA'' ''ping''
   \<and> CheckMetrics 200 ex_full [''QmA''] = (Some ErrAlertChannelFull, ex_full)
   \<and> count_list (Alerts (snd (CheckMetrics 200 ex_full [''QmA'']))) (Alert ''QmA'' ''ping'') = 0
   \<and> fst (CheckMetrics 200 (NewMetricsChecker ex_store) [''QmA'', ''QmA'']) = None
   \<and> Alerts (snd (CheckMetrics 200 (NewMetricsChecker ex_store) [''QmA'', ''QmA'']))
       = [Alert ''QmA'' ''ping'', Alert ''QmA'' ''ping'']"
proof -
  have c: "CheckMetrics 200 ex_full [''QmA''] = (Some ErrAlertChannelFull, ex_full)"
    by (simp add: ex_full_def ex_PeerMetrics ex_metric_def alert_def Expired_def)
  have m: "metrics ex_full = ex_store" by (simp add: ex_full_def)
  have z: "count_list (Alerts ex_full) (Alert ''QmA'' ''ping'') = 0"
    by (simp add: ex_full_def Alerts_def count_list_0_iff)
  have d: "CheckMetrics 200 (NewMetricsChecker ex_store) [''QmA'', ''QmA'']
             = (None, enqueue [Alert ''QmA'' ''ping'', Alert ''QmA'' ''ping'']
                        (NewMetricsChecker ex_store))"
    by (simp add: NewMetricsChecker_def ex_PeerMetrics ex_metric_def alert_def Expired_def
        AlertChannelCap_def enqueue_def)
  have e: "Alerts (NewMetricsChecker ex_store) = []"
    by (simp add: NewMetricsChecker_def Alerts_def)
  show ?thesis
    using z by (simp add: c d m e ex_store_ok ex_overdue Alerts_enqueue del: CheckMetrics.simps)
qed

section \<open>What enters the store\<close>

lemma New_stored_subset:
  assumes "New w None None None = Inr s0" and "exec env acts s0 = Some s"
  shows "stored (mon_metrics (mon s)) \<subseteq> (\<Union>a \<in> set acts. brings env a)"
  using exec_brings [OF assms(2)] New_empty [OF assms(1), of env] by auto

lemma LogMetric_stores: "m \<in> stored (mon_metrics (snd (LogMetric mon0 m)))"
  by (simp add: mon_metrics_LogMetric stored_Add_mem)

lemma Handle_stores:
  assumes "recv_task s = RecvGot data" and "Decode env data = Inr m"
  shows "logFromPubsub env Handle s
           = Some (s\<lparr>mon := snd (LogMetric (mon s) m), recv_task := RecvLoop\<rparr>)"
    and "mon_metrics (mon (s\<lparr>mon := snd (LogMetric (mon s) m), recv_task := RecvLoop\<rparr>))
           = Add (mon_metrics (mon s)) m"
    and "m \<in> stored (mon_metrics (mon (s\<lparr>mon := snd (LogMetric (mon s) m), recv_task := RecvLoop\<rparr>)))"
  using assms by (simp_all add: mon_metrics_LogMetric stored_Add_mem)

text \<open>
  Claim C1, as amended. Whatever the owner and the goroutines do to a monitor made by
  \<^verbatim>\<open>New\<close>, every metric its store holds was handed to \<^verbatim>\<open>LogMetric\<close> or decoded from
  a message the subscription delivered; so every stored metric has \<^verbatim>\<open>Valid == true\<close>
  provided each of those has. \<^verbatim>\<open>LogMetric\<close> checks nothing: it returns no error and
  hands its metric to \<^verbatim>\<open>Add\<close>, which files it, whatever its kind, its peer and its
  \<^verbatim>\<open>Valid\<close> flag. The receive loop checks nothing either: a message \<^verbatim>\<open>Next\<close> returns
  is kept as it is, and whatever metric it decodes to is handed to \<^verbatim>\<open>LogMetric\<close> and
  so filed in the store. \<^verbatim>\<open>PublishMetric\<close> leaves the store as it is. (As stated, the
  claim fails: the counterexample below stores a metric with no kind, no peer and
  \<^verbatim>\<open>Valid == false\<close>, once through \<^verbatim>\<open>LogMetric\<close> and once through the receive loop.)
\<close>

theorem stored_metrics_are_the_logged_ones:
  "(New w None None None = Inr s0 \<and> exec env acts s0 = Some s \<longrightarrow>
      stored (mon_metrics (mon s)) \<subseteq> (\<Union>a \<in> set acts. brings env a)
      \<and> ((\<forall>a \<in> set acts. \<forall>m \<in> brings env a. Valid m) \<longrightarrow>
           (\<forall>m \<in> stored (mon_metrics (mon s)). Valid m)))
   \<and> fst (LogMetric mon0 m) = None
   \<and> mon_metrics (snd (LogMetric mon0 m)) = Add (mon_metrics mon0) m
   \<and> m \<in> stored (mon_metrics (snd (LogMetric mon0 m)))
   \<and> stored (Add mtrs m) \<subseteq> insert m (stored mtrs)
   \<and> m \<in> stored (Add mtrs m)
   \<and> mon_metrics (snd (PublishMetric env mon0 m)) = mon_metrics mon0
   \<and> (recv_task t = RecvNext \<longrightarrow>
        logFromPubsub env (NextReturns (Inr data)) t = Some (t\<lparr>recv_task := RecvGot data\<rparr>))
   \<and> (recv_task t = RecvGot data \<and> Decode env data = Inr m \<longrightarrow>
        logFromPubsub env Handle t
          = Some (t\<lparr>mon := snd (LogMetric (mon t) m), recv_task := RecvLoop\<rparr>)
        \<and> mon_metrics (mon (t\<lparr>mon := snd (LogMetric (mon t) m), recv_task := RecvLoop\<rparr>))
          = Add (mon_metrics (mon t)) m
        \<and> m \<in> stored (mon_metrics (mon (t\<lparr>mon := snd (LogMetric (mon t) m), recv_task := RecvLoop\<rparr>))))"
proof -
  have sub: "stored (mon_metrics (mon s)) \<subseteq> (\<Union>a \<in> set acts. brings env a)"
    if "New w None None None = Inr s0" "exec env acts s0 = Some s"
    using that by (rule New_stored_subset)
  have first: "New w None None None = Inr s0 \<and> exec env acts s0 = Some s \<longrightarrow>
      stored (mon_metrics (mon s)) \<subseteq> (\<Union>a \<in> set acts. brings env a)
      \<and> ((\<forall>a \<in> set acts. \<forall>m \<in> brings env a. Valid m) \<longrightarrow>
           (\<forall>m \<in> stored (mon_metrics (mon s)). Valid m))"
    using sub by blast
  have none: "fst (LogMetric mon0 m) = None" by (simp add: LogMetric_def)
  have next_keeps: "recv_task t = RecvNext \<longrightarrow>
        logFromPubsub env (NextReturns (Inr data)) t = Some (t\<lparr>recv_task := RecvGot data\<rparr>)"
    by simp
  have handle: "recv_task t = RecvGot data \<and> Decode env data = Inr m \<longrightarrow>
        logFromPubsub env Handle t
          = Some (t\<lparr>mon := snd (LogMetric (mon t) m), recv_task := RecvLoop\<rparr>)
        \<and> mon_metrics (mon (t\<lparr>mon := snd (LogMetric (mon t) m), recv_task := RecvLoop\<rparr>))
          = Add (mon_metrics (mon t)) m
        \<and> m \<in> stored (mon_metrics (mon (t\<lparr>mon := snd (LogMetric (mon t) m), recv_task := RecvLoop\<rparr>)))"
    using Handle_stores [of t data env m] by blast
  show ?thesis
    using first none LogMetric_stores [of m mon0] stored_Add_subset [of mtrs m]
      mon_metrics_LogMetric [of mon0 m]
      stored_Add_mem [of m mtrs] mon_metrics_PublishMetric [of env mon0 m]
      next_keeps handle
    by blast
qed

lemma ex_New: "New 2 None None None = Inr ex_sys"
  by (simp add: ex_sys_def New_def)

lemma ex_sys_value:
  "ex_sys = \<lparr>mon = \<lparr>cancelled = False, rpcClient = None,
                    rpcReady = \<lparr>ready_pending = 0, ready_blocked = 0, ready_closed = False\<rparr>,
                    pubsub = [], checker = NewMetricsChecker (NewMetricStore 2), shutdownLock = False,
                    shutdown = False, wg = 0, teardown = []\<rparr>,
             run_task = RunSelect, recv_task = RecvNotStarted,
             watch_task = WatchNotStarted, crashed = False\<rparr>"
  by (simp add: ex_sys_def New_def)

lemma stored_Add_New: "stored (Add (NewMetricStore w) m) = {m}"
  by (simp add: stored_def Add_def NewMetricStore_def kinds_of_def history_def window_add_def)

lemma ex_mon_metrics: "mon_metrics (mon ex_sys) = NewMetricStore 2"
  by (simp add: ex_sys_value mon_metrics_def NewMetricsChecker_def)

lemma ex_sys_alive: "\<not> crashed ex_sys"
  by (simp add: ex_sys_value)

theorem stored_metrics_are_the_logged_ones_witness:
  "New 2 None None None = Inr ex_sys
   \<and> exec ex_env [CallLogMetric (ex_metric ''QmA''), CallPublishMetric ex_bad] ex_sys
       = Some (ex_sys\<lparr>mon := snd (LogMetric (mon ex_sys) (ex_metric ''QmA''))\<rparr>)
   \<and> stored (mon_metrics (snd (LogMetric (mon ex_sys) (ex_metric ''QmA'')))) = {ex_metric ''QmA''}
   \<and> Valid (ex_metric ''QmA'')
   \<and> recv_task (ex_sys\<lparr>recv_task := RecvNext\<rparr>) = RecvNext
   \<and> logFromPubsub ex_env (NextReturns (Inr [0])) (ex_sys\<lparr>recv_task := RecvNext\<rparr>)
       = Some (ex_sys\<lparr>recv_task := RecvGot [0]\<rparr>)
   \<and> recv_task (ex_sys\<lparr>recv_task := RecvGot [0]\<rparr>) = RecvGot [0]
   \<and> Decode ex_env [0] = Inr ex_bad
   \<and> logFromPubsub ex_env Handle (ex_sys\<lparr>recv_task := RecvGot [0]\<rparr>)
       = Some (ex_sys\<lparr>mon := snd (LogMetric (mon ex_sys) ex_bad), recv_task := RecvLoop\<rparr>)
   \<and> ex_bad \<in> stored (mon_metrics (snd (LogMetric (mon ex_sys) ex_bad)))"
proof -
  let ?acts = "[CallLogMetric (ex_metric ''QmA''), CallPublishMetric ex_bad]"
  let ?s = "ex_sys\<lparr>mon := snd (LogMetric (mon ex_sys) (ex_metric ''QmA''))\<rparr>"
  have e: "exec ex_env ?acts ex_sys = Some ?s"
    by (simp add: step_def ex_sys_value PublishMetric_def Discard_def ex_bad_def)
  have v: "\<forall>a \<in> set ?acts. \<forall>m \<in> brings ex_env a. Valid m"
    by (simp add: ex_metric_def)
  have n: "recv_task (ex_sys\<lparr>recv_task := RecvNext\<rparr>) = RecvNext" by simp
  have g: "recv_task (ex_sys\<lparr>recv_task := RecvGot [0]\<rparr>) = RecvGot [0]" by simp
  have d: "Decode ex_env [0] = Inr ex_bad" by (simp add: ex_env_def)
  from stored_metrics_are_the_logged_ones [where w = 2 and ?s0.0 = ex_sys and env = ex_env
      and acts = ?acts and s = ?s] ex_New e v
  have valid: "\<forall>m \<in> stored (mon_metrics (mon ?s)). Valid m" by blast
  from stored_metrics_are_the_logged_ones [where env = ex_env
      and t = "ex_sys\<lparr>recv_task := RecvNext\<rparr>" and data = "[0]"] n
  have kept: "logFromPubsub ex_env (NextReturns (Inr [0])) (ex_sys\<lparr>recv_task := RecvNext\<rparr>)
                = Some (ex_sys\<lparr>recv_task := RecvNext\<rparr>\<lparr>recv_task := RecvGot [0]\<rparr>)"
    by blast
  from stored_metrics_are_the_logged_ones [where env = ex_env
      and t = "ex_sys\<lparr>recv_task := RecvGot [0]\<rparr>" and data = "[0]" and m = ex_bad] g d
  have logged: "logFromPubsub ex_env Handle (ex_sys\<lparr>recv_task := RecvGot [0]\<rparr>)
                  = Some (ex_sys\<lparr>recv_task := RecvGot [0]\<rparr>
                            \<lparr>mon := snd (LogMetric (mon (ex_sys\<lparr>recv_task := RecvGot [0]\<rparr>)) ex_bad),
                             recv_task := RecvLoop\<rparr>)"
    and filed: "ex_bad \<in> stored (mon_metrics (mon (ex_sys\<lparr>recv_task := RecvGot [0]\<rparr>
                            \<lparr>mon := snd (LogMetric (mon (ex_sys\<lparr>recv_task := RecvGot [0]\<rparr>)) ex_bad),
                             recv_task := RecvLoop\<rparr>)))"
    by blast+
  show ?thesis using ex_New e valid kept logged filed d
    by (simp add: mon_metrics_LogMetric ex_mon_metrics stored_Add_New)
qed

theorem invalid_metric_is_stored_counterexample:
  "\<not> Valid ex_bad \<and> Name ex_bad = [] \<and> Peer ex_bad = [] \<and> Discard ex_bad
   \<and> New 2 None None None = Inr ex_sys
   \<and> map_option (\<lambda>s. stored (mon_metrics (mon s))) (exec ex_env [CallLogMetric ex_bad] ex_sys)
       = Some {ex_bad}
   \<and> Decode ex_env [0] = Inr ex_bad
   \<and> map_option (\<lambda>s. stored (mon_metrics (mon s)))
        (exec ex_env
           [CallSetClient 1, GoRun FromRpcReady, GoRecv AtSelect, GoRecv (NextReturns (Inr [0])),
            GoRecv Handle] ex_sys)
       = Some {ex_bad}"
proof -
  have a: "map_option (\<lambda>s. stored (mon_metrics (mon s))) (exec ex_env [CallLogMetric ex_bad] ex_sys)
       = Some {ex_bad}"
    by (simp add: step_def ex_sys_alive mon_metrics_LogMetric ex_mon_metrics stored_Add_New)
  have d: "Decode ex_env [0] = Inr ex_bad" by (simp add: ex_env_def)
  have b: "map_option (\<lambda>s. stored (mon_metrics (mon s)))
        (exec ex_env
           [CallSetClient 1, GoRun FromRpcReady, GoRecv AtSelect, GoRecv (NextReturns (Inr [0])),
            GoRecv Handle] ex_sys)
       = Some {ex_bad}"
    by (simp add: step_def ex_sys_value SetClient_def ready_send_def ready_recv_def is_panic_def d
        LogMetric_def mon_metrics_def NewMetricsChecker_def stored_Add_New)
  show ?thesis using a b d ex_New
    by (simp add: ex_bad_def Discard_def)
qed

section \<open>Shutdown, called again\<close>

lemma Shutdown_in_inv:
  assumes "sys_inv s"
  shows "fst (Shutdown (mon s)) = Returned None" and "shutdown (snd (Shutdown (mon s)))"
  using assms by (auto simp: sys_inv_def Shutdown_def ready_close_def Let_def)

lemma Shutdown_when_shutdown:
  "shutdown m \<Longrightarrow> \<not> shutdownLock m \<Longrightarrow> Shutdown m = (Returned None, m)"
  by (simp add: Shutdown_def)

lemma shutdown_act: "act env a s = Some s' \<Longrightarrow> shutdown (mon s) \<Longrightarrow> shutdown (mon s')"
proof (cases a)
  case (GoRun c)
  assume "act env a s = Some s'" "shutdown (mon s)"
  with GoRun show ?thesis by (cases c) (auto split: if_splits option.splits)
next
  case (GoRecv r)
  assume "act env a s = Some s'" "shutdown (mon s)"
  with GoRecv show ?thesis
    by (cases r) (auto simp: LogMetric_def split: if_splits sum.splits recv_pc.splits)
next
  case (GoWatch ev)
  assume "act env a s = Some s'" "shutdown (mon s)"
  with GoWatch show ?thesis
    by (auto simp: watch_turn_def split: if_splits prod.splits)
qed (auto simp: SetClient_def Shutdown_def LogMetric_def PublishMetric_def Let_def
      split: prod.splits if_splits option.splits sum.splits list.splits)

lemma shutdown_exec: "exec env acts s = Some s' \<Longrightarrow> shutdown (mon s) \<Longrightarrow> shutdown (mon s')"
proof (induction acts arbitrary: s)
  case Nil
  then show ?case by simp
next
  case (Cons a acts)
  from Cons.prems(1) obtain s1 where a: "act env a s = Some s1" and r: "exec env acts s1 = Some s'"
    by (auto simp: step_def split: option.splits if_splits)
  from Cons.IH [OF r shutdown_act [OF a Cons.prems(2)]] show ?case .
qed

lemma after_Shutdown:
  assumes "reachable env s" and "step env CallShutdown s = Some s1" and "exec env acts s1 = Some s2"
  shows "sys_inv s2" and "shutdown (mon s2)"
proof -
  have "reachable env s1" using assms(1,2) by (rule reach_step)
  then have "reachable env s2" using assms(3) by (rule reachable_exec)
  then show "sys_inv s2" by (rule reachable_inv)
  have "sys_inv s" using assms(1) by (rule reachable_inv)
  then have "shutdown (snd (Shutdown (mon s)))" by (rule Shutdown_in_inv)
  with assms(2) have "shutdown (mon s1)"
    by (auto simp: step_def split: if_splits prod.splits)
  with assms(3) show "shutdown (mon s2)" by (rule shutdown_exec)
qed

text \<open>
  Claim C9. Once \<^verbatim>\<open>Shutdown\<close> was called on a monitor made by \<^verbatim>\<open>New\<close>, then whatever
  happens next (more calls of the owner, steps of the goroutines), a call of
  \<^verbatim>\<open>Shutdown\<close> returns \<^verbatim>\<open>nil\<close> and leaves the monitor exactly as it was: no field
  changes and no teardown call is added to the three of the first call (one close of
  \<^verbatim>\<open>rpcReady\<close>, one cancel, one wait). For any monitor at all: when a call of
  \<^verbatim>\<open>Shutdown\<close> returns, it returns \<^verbatim>\<open>nil\<close>, and the next call returns \<^verbatim>\<open>nil\<close> and
  changes nothing.
\<close>

theorem Shutdown_twice_is_a_no_op:
  "(reachable env s \<and> step env CallShutdown s = Some s1 \<and> exec env acts s1 = Some s2 \<longrightarrow>
      Shutdown (mon s2) = (Returned None, mon s2)
      \<and> teardown (mon s2) = [CloseRpcReady, CancelCtx, WaitGroupWait])
   \<and> (fst (Shutdown m) = Returned r \<longrightarrow>
        r = None \<and> Shutdown (snd (Shutdown m)) = (Returned None, snd (Shutdown m)))"
proof -
  have a: "Shutdown (mon s2) = (Returned None, mon s2)
           \<and> teardown (mon s2) = [CloseRpcReady, CancelCtx, WaitGroupWait]"
    if "reachable env s" "step env CallShutdown s = Some s1" "exec env acts s1 = Some s2"
    using after_Shutdown [OF that]
    by (simp add: sys_inv_def Shutdown_when_shutdown)
  have b: "r = None \<and> Shutdown (snd (Shutdown m)) = (Returned None, snd (Shutdown m))"
    if "fst (Shutdown m) = Returned r"
    using that by (auto simp: Shutdown_def Let_def split: if_splits option.splits)
  show ?thesis using a b by blast
qed

theorem Shutdown_twice_is_a_no_op_witness:
  "reachable ex_env ex_sys
   \<and> step ex_env CallShutdown ex_sys = Some (ex_sys\<lparr>mon := snd (Shutdown (mon ex_sys))\<rparr>)
   \<and> exec ex_env [CallLogMetric ex_bad, CallShutdown] (ex_sys\<lparr>mon := snd (Shutdown (mon ex_sys))\<rparr>)
       = Some (ex_sys\<lparr>mon := snd (LogMetric (snd (Shutdown (mon ex_sys))) ex_bad)\<rparr>)
   \<and> Shutdown (snd (LogMetric (snd (Shutdown (mon ex_sys))) ex_bad))
       = (Returned None, snd (LogMetric (snd (Shutdown (mon ex_sys))) ex_bad))
   \<and> teardown (snd (LogMetric (snd (Shutdown (mon ex_sys))) ex_bad))
       = [CloseRpcReady, CancelCtx, WaitGroupWait]
   \<and> fst (Shutdown (mon ex_sys)) = Returned None
   \<and> Shutdown (snd (Shutdown (mon ex_sys))) = (Returned None, snd (Shutdown (mon ex_sys)))"
proof -
  let ?s1 = "ex_sys\<lparr>mon := snd (Shutdown (mon ex_sys))\<rparr>"
  let ?s2 = "ex_sys\<lparr>mon := snd (LogMetric (snd (Shutdown (mon ex_sys))) ex_bad)\<rparr>"
  let ?acts = "[CallLogMetric ex_bad, CallShutdown]"
  have r: "reachable ex_env ex_sys" by (rule New_reachable)
  have f: "fst (Shutdown (mon ex_sys)) = Returned None"
    by (simp add: ex_sys_value Shutdown_def ready_close_def)
  have a: "step ex_env CallShutdown ex_sys = Some ?s1"
    by (simp add: step_def ex_sys_value Shutdown_def ready_close_def is_panic_def senders_panic_def)
  have b: "exec ex_env ?acts ?s1 = Some ?s2"
    by (simp add: step_def ex_sys_value Shutdown_def ready_close_def is_panic_def senders_panic_def
        LogMetric_def)
  note inst = Shutdown_twice_is_a_no_op [where env = ex_env and s = ex_sys and ?s1.0 = ?s1
      and acts = ?acts and ?s2.0 = ?s2 and m = "mon ex_sys" and r = None]
  from inst r a b
  have later: "Shutdown (mon ?s2) = (Returned None, mon ?s2)
        \<and> teardown (mon ?s2) = [CloseRpcReady, CancelCtx, WaitGroupWait]" by blast
  from inst f
  have again: "Shutdown (snd (Shutdown (mon ex_sys))) = (Returned None, snd (Shutdown (mon ex_sys)))"
    by blast
  show ?thesis using r a b f later again by simp
qed

section \<open>SetClient after Shutdown\<close>

lemma SetClient_closed:
  "ready_closed (rpcReady m) \<Longrightarrow> fst (SetClient m c) = Panicked ''send on closed channel''"
  by (simp add: SetClient_def ready_send_def)

lemma Shutdown_closes:
  "fst (Shutdown m) = Returned r \<Longrightarrow> \<not> shutdown m \<Longrightarrow> ready_closed (rpcReady (snd (Shutdown m)))"
  by (auto simp: Shutdown_def ready_close_def Let_def split: if_splits)

text \<open>
  Claim C10. Once \<^verbatim>\<open>Shutdown\<close> was called on a monitor made by \<^verbatim>\<open>New\<close>, then
  whatever happens next, \<^verbatim>\<open>rpcReady\<close> is closed and a call of \<^verbatim>\<open>SetClient\<close> panics
  with a send on the closed channel, which takes the process down. For any monitor at
  all: when \<^verbatim>\<open>Shutdown\<close> returns from a monitor that was not shut down, \<^verbatim>\<open>SetClient\<close>
  on the monitor it leaves panics.
\<close>

theorem SetClient_after_Shutdown_panics:
  "(reachable env s \<and> step env CallShutdown s = Some s1 \<and> exec env acts s1 = Some s2 \<longrightarrow>
      ready_closed (rpcReady (mon s2))
      \<and> fst (SetClient (mon s2) c) = Panicked ''send on closed channel''
      \<and> (\<not> crashed s2 \<longrightarrow>
           step env (CallSetClient c) s2
             = Some (s2\<lparr>mon := snd (SetClient (mon s2) c), crashed := True\<rparr>)))
   \<and> (fst (Shutdown m) = Returned r \<and> \<not> shutdown m \<longrightarrow>
        fst (SetClient (snd (Shutdown m)) c) = Panicked ''send on closed channel'')"
proof -
  have a: "ready_closed (rpcReady (mon s2))
      \<and> fst (SetClient (mon s2) c) = Panicked ''send on closed channel''
      \<and> (\<not> crashed s2 \<longrightarrow>
           step env (CallSetClient c) s2
             = Some (s2\<lparr>mon := snd (SetClient (mon s2) c), crashed := True\<rparr>))"
    if "reachable env s" "step env CallShutdown s = Some s1" "exec env acts s1 = Some s2"
  proof -
    from after_Shutdown [OF that] have closed: "ready_closed (rpcReady (mon s2))"
      by (simp add: sys_inv_def)
    then have p: "fst (SetClient (mon s2) c) = Panicked ''send on closed channel''"
      by (rule SetClient_closed)
    then show ?thesis using closed
      by (auto simp: step_def is_panic_def split: prod.splits)
  qed
  have b: "fst (SetClient (snd (Shutdown m)) c) = Panicked ''send on closed channel''"
    if "fst (Shutdown m) = Returned r" "\<not> shutdown m"
    using Shutdown_closes [OF that] by (rule SetClient_closed)
  show ?thesis using a b by blast
qed

theorem SetClient_after_Shutdown_panics_witness:
  "reachable ex_env ex_sys
   \<and> step ex_env CallShutdown ex_sys = Some (ex_sys\<lparr>mon := snd (Shutdown (mon ex_sys))\<rparr>)
   \<and> exec ex_env [] (ex_sys\<lparr>mon := snd (Shutdown (mon ex_sys))\<rparr>)
       = Some (ex_sys\<lparr>mon := snd (Shutdown (mon ex_sys))\<rparr>)
   \<and> \<not> crashed (ex_sys\<lparr>mon := snd (Shutdown (mon ex_sys))\<rparr>)
   \<and> fst (Shutdown (mon ex_sys)) = Returned None \<and> \<not> shutdown (mon ex_sys)
   \<and> fst (SetClient (snd (Shutdown (mon ex_sys))) 7) = Panicked ''send on closed channel''
   \<and> step ex_env (CallSetClient 7) (ex_sys\<lparr>mon := snd (Shutdown (mon ex_sys))\<rparr>)
       = Some (ex_sys\<lparr>mon := snd (SetClient (snd (Shutdown (mon ex_sys))) 7), crashed := True\<rparr>)"
proof -
  let ?s1 = "ex_sys\<lparr>mon := snd (Shutdown (mon ex_sys))\<rparr>"
  have r: "reachable ex_env ex_sys" by (rule New_reachable)
  have f: "fst (Shutdown (mon ex_sys)) = Returned None" "\<not> shutdown (mon ex_sys)"
    by (simp_all add: ex_sys_value Shutdown_def ready_close_def)
  have a: "step ex_env CallShutdown ex_sys = Some ?s1"
    by (simp add: step_def ex_sys_value Shutdown_def ready_close_def is_panic_def senders_panic_def)
  have b: "exec ex_env [] ?s1 = Some ?s1" by simp
  have c: "\<not> crashed ?s1" by (simp add: ex_sys_value)
  note inst = SetClient_after_Shutdown_panics [where env = ex_env and s = ex_sys and ?s1.0 = ?s1
      and acts = "[]" and ?s2.0 = ?s1 and c = 7 and m = "mon ex_sys" and r = None]
  from inst r a b c
  have p: "fst (SetClient (mon ?s1) 7) = Panicked ''send on closed channel''"
    and q: "step ex_env (CallSetClient 7) ?s1
              = Some (?s1\<lparr>mon := snd (SetClient (mon ?s1) 7), crashed := True\<rparr>)"
    by blast+
  from inst f
  have "fst (SetClient (snd (Shutdown (mon ex_sys))) 7) = Panicked ''send on closed channel''"
    by blast
  then show ?thesis using r a b c f q by simp
qed

section \<open>Shutdown and the background tasks\<close>

lemma stored_ex_A: "stored (Add (NewMetricStore 2) (ex_metric ''QmA'')) = {ex_metric ''QmA''}"
  by (rule stored_Add_New)

lemma PeerMetrics_ex_A:
  "PeerMetrics (Add (NewMetricStore 2) (ex_metric ''QmA'')) ''QmA'' = [ex_metric ''QmA'']"
  by (simp add: store_defs ex_metric_def)

lemma ex_before:
  "exec ex_env ex_schedule ex_sys =
     Some \<lparr>mon = \<lparr>cancelled = True, rpcClient = Some 1,
                  rpcReady = \<lparr>ready_pending = 0, ready_blocked = 0, ready_closed = True\<rparr>,
                  pubsub = [], checker = NewMetricsChecker (NewMetricStore 2), shutdownLock = False,
                  shutdown = True, wg = 0, teardown = [CloseRpcReady, CancelCtx, WaitGroupWait]\<rparr>,
           run_task = RunReturned, recv_task = RecvGot [1], watch_task = WatchLoop, crashed = False\<rparr>"
  by (simp add: ex_schedule_def step_def ex_sys_value SetClient_def ready_send_def ready_recv_def
      is_panic_def senders_panic_def Shutdown_def ready_close_def)

lemma exec_append:
  "exec env (xs @ ys) s = (case exec env xs s of None \<Rightarrow> None | Some s' \<Rightarrow> exec env ys s')"
  by (induction xs arbitrary: s) (auto split: option.splits)

text \<open>
  Claim C2 fails on the code: nothing adds to the wait group, so \<^verbatim>\<open>wg.Wait()\<close> returns
  at once and \<^verbatim>\<open>Shutdown\<close> does not wait for the goroutines. The schedule
  \<open>ex_schedule\<close>: the owner binds the client, \<^verbatim>\<open>run\<close> starts the two loops, the
  receive loop enters \<^verbatim>\<open>Next\<close> and gets a message, and the owner calls
  \<^verbatim>\<open>Shutdown\<close>. \<^verbatim>\<open>Shutdown\<close> returns \<^verbatim>\<open>nil\<close> (the counter of the wait group is 0) with
  the flag set, while the receive loop still holds its message and the watch loop
  still waits in its \<^verbatim>\<open>select\<close>; the store and the alert queue are empty. Then the
  receive loop decodes and logs the message, and the watch loop takes a tick: after
  \<^verbatim>\<open>Shutdown\<close> has returned a metric is stored and an alert is emitted.
\<close>

theorem Shutdown_returns_while_tasks_run:
  "map_option observe (exec ex_env ex_schedule ex_sys)
     = Some (True, RecvGot [1], WatchLoop, False, [], {})
   \<and> map_option (\<lambda>s. (fst (Shutdown (mon s)), wg (mon s)))
        (exec ex_env [CallSetClient 1, GoRun FromRpcReady, GoRecv AtSelect,
                      GoRecv (NextReturns (Inr [1]))] ex_sys)
     = Some (Returned None, 0)
   \<and> map_option observe
        (exec ex_env (ex_schedule @ [GoRecv Handle, GoWatch (Tick ([''QmA''], None) 200)]) ex_sys)
     = Some (True, RecvLoop, WatchLoop, False, [Alert ''QmA'' ''ping''], {ex_metric ''QmA''})"
proof -
  have a: "map_option observe (exec ex_env ex_schedule ex_sys)
     = Some (True, RecvGot [1], WatchLoop, False, [], {})"
    by (simp add: ex_before observe_def Monitor_Alerts_def Alerts_def NewMetricsChecker_def
        mon_metrics_def stored_New)
  have b: "map_option (\<lambda>s. (fst (Shutdown (mon s)), wg (mon s)))
        (exec ex_env [CallSetClient 1, GoRun FromRpcReady, GoRecv AtSelect,
                      GoRecv (NextReturns (Inr [1]))] ex_sys)
     = Some (Returned None, 0)"
    by (simp add: step_def ex_sys_value SetClient_def ready_send_def ready_recv_def
      is_panic_def Shutdown_def ready_close_def)
  have d: "Decode ex_env [1] = Inr (ex_metric ''QmA'')" by (simp add: ex_env_def)
  have c: "map_option observe
        (exec ex_env (ex_schedule @ [GoRecv Handle, GoWatch (Tick ([''QmA''], None) 200)]) ex_sys)
     = Some (True, RecvLoop, WatchLoop, False, [Alert ''QmA'' ''ping''], {ex_metric ''QmA''})"
    by (simp add: exec_append ex_before step_def d watch_turn_def getPeers_def LogMetric_def
        NewMetricsChecker_def PeerMetrics_ex_A alert_def AlertChannelCap_def observe_def
        Monitor_Alerts_def Alerts_def mon_metrics_def stored_ex_A)
      (simp add: ex_metric_def Expired_def)
  show ?thesis using a b c by simp
qed

section \<open>PublishMetric\<close>

text \<open>
  Claim C6. \<^verbatim>\<open>PublishMetric\<close> on a metric with an empty kind or an empty peer, that
  is, one for which \<^verbatim>\<open>Discard()\<close> is true, returns no error and leaves the monitor as
  it is: nothing is handed to the transport. Otherwise the metric is encoded; an
  encoding error is returned and nothing is handed to the transport; the encoded
  payload is handed to \<^verbatim>\<open>Publish\<close> with the topic \<^verbatim>\<open>PubsubTopic\<close>, and what
  \<^verbatim>\<open>Publish\<close> returns (an error or none) is returned.
\<close>

theorem PublishMetric_discards_or_publishes:
  "(Name m = [] \<or> Peer m = [] \<longrightarrow> PublishMetric env mon0 m = (None, mon0))
   \<and> (Discard m \<longrightarrow> PublishMetric env mon0 m = (None, mon0))
   \<and> (\<not> Discard m \<longrightarrow>
        (case Encode env m of
           Inl err \<Rightarrow> PublishMetric env mon0 m = (Some err, mon0)
         | Inr b \<Rightarrow>
             PublishMetric env mon0 m
               = (Publish env PubsubTopic b, mon0\<lparr>pubsub := pubsub mon0 @ [(PubsubTopic, b)]\<rparr>)))"
  by (auto simp: PublishMetric_def Discard_def Let_def split: sum.splits option.splits)

theorem PublishMetric_discards_or_publishes_witness:
  "Name ex_bad = [] \<and> Discard ex_bad
   \<and> PublishMetric ex_env (mon ex_sys) ex_bad = (None, mon ex_sys)
   \<and> \<not> Discard (ex_metric ''QmA'')
   \<and> Encode ex_env (ex_metric ''QmA'') = Inr [1]
   \<and> PublishMetric ex_env (mon ex_sys) (ex_metric ''QmA'')
       = (None, (mon ex_sys)\<lparr>pubsub := [(''pubsubmon'', [1])]\<rparr>)
   \<and> \<not> Discard ((ex_metric ''QmA'')\<lparr>Value := ''2''\<rparr>)
   \<and> PublishMetric ex_env (mon ex_sys) ((ex_metric ''QmA'')\<lparr>Value := ''2''\<rparr>)
       = (Some (ErrExternal ''encode''), mon ex_sys)"
proof -
  have n: "Name ex_bad = []" "Discard ex_bad" by (simp_all add: ex_bad_def Discard_def)
  have d: "\<not> Discard (ex_metric ''QmA'')" "\<not> Discard ((ex_metric ''QmA'')\<lparr>Value := ''2''\<rparr>)"
    by (simp_all add: ex_metric_def Discard_def)
  have e: "Encode ex_env (ex_metric ''QmA'') = Inr [1]"
    "Encode ex_env ((ex_metric ''QmA'')\<lparr>Value := ''2''\<rparr>) = Inl (ErrExternal ''encode'')"
    by (simp_all add: ex_env_def ex_metric_def)
  have p: "\<And>topic b. Publish ex_env topic b = None" by (simp add: ex_env_def)
  have q: "pubsub (mon ex_sys) = []" by (simp add: ex_sys_value)
  show ?thesis
    using n d e
      PublishMetric_discards_or_publishes [of ex_bad ex_env "mon ex_sys"]
      PublishMetric_discards_or_publishes [of "ex_metric ''QmA''" ex_env "mon ex_sys"]
      PublishMetric_discards_or_publishes [of "(ex_metric ''QmA'')\<lparr>Value := ''2''\<rparr>" ex_env "mon ex_sys"]
    by (simp add: p q PubsubTopic_def)
qed

section \<open>LatestMetrics\<close>

text \<open>
  Claim C7. When the remote call returns no error, \<^verbatim>\<open>LatestMetrics\<close> is what
  \<^verbatim>\<open>PeersetFilter\<close> keeps of the store's \<^verbatim>\<open>Latest\<close> for the peers \<^verbatim>\<open>getPeers\<close>
  returns: the metrics of \<^verbatim>\<open>Latest\<close> whose peer is one of them, in the same order. When
  the remote call returns an error, \<^verbatim>\<open>getPeers\<close> returns it and \<^verbatim>\<open>LatestMetrics\<close>
  returns the empty list; its result type has no error.
\<close>

theorem LatestMetrics_filters_by_peer_set:
  "LatestMetrics mon0 (peers, None) now name
     = PeersetFilter (Latest (mon_metrics mon0) name now) (fst (getPeers mon0 (peers, None)))
   \<and> LatestMetrics mon0 (peers, None) now name
     = filter (\<lambda>m. Peer m \<in> set peers) (Latest (mon_metrics mon0) name now)
   \<and> getPeers mon0 (peers, None) = (peers, None)
   \<and> getPeers mon0 (peers, Some err) = (peers, Some err)
   \<and> LatestMetrics mon0 (peers, Some err) now name = []"
  by (simp add: LatestMetrics_def getPeers_def PeersetFilter_def)

section \<open>The watch loop\<close>






lemma Watch_select_returns_iff: "fst (Watch_select ev mc) \<longleftrightarrow> ev = Done"
  by (cases ev) (simp_all add: Watch_select_Tick)


















end
